theory Spec2Isabelle
  imports Complex_Main "HOL-Library.Word"
begin

section \<open>Python strings\<close>

text \<open>
  A Python \<open>str\<close> is a sequence of Unicode code points. It is modelled as a list of
  natural numbers, one per code point, so that \<open>len\<close> is \<open>length\<close>. String literals of
  the source are ASCII and are written through \<open>lit\<close>.
\<close>

type_synonym pystr = "nat list"

definition lit :: "string \<Rightarrow> pystr" where
  "lit s = map of_char s"

text \<open>
  The code points \<open>str.strip()\<close> removes when called without an argument: those for
  which CPython's \<open>Py_UNICODE_ISSPACE\<close> holds.
\<close>

definition whitespace :: "nat list" where
  "whitespace =
     [0x09, 0x0A, 0x0B, 0x0C, 0x0D, 0x1C, 0x1D, 0x1E, 0x1F, 0x20, 0x85, 0xA0, 0x1680,
      0x2000, 0x2001, 0x2002, 0x2003, 0x2004, 0x2005, 0x2006, 0x2007, 0x2008, 0x2009,
      0x200A, 0x2028, 0x2029, 0x202F, 0x205F, 0x3000]"

definition isspace :: "nat \<Rightarrow> bool" where
  "isspace c = (c \<in> set whitespace)"

definition strip :: "pystr \<Rightarrow> pystr" where
  "strip s = rev (dropWhile isspace (rev (dropWhile isspace s)))"

text \<open>
  \<open>s.split(sep)\<close> for a separator that is not empty (both separators of the source are
  literals): the text is scanned from the left, every occurrence of the separator that
  does not overlap an earlier one ends a piece, and the piece after the last occurrence
  closes the list. \<open>piece\<close> holds the current piece.
\<close>

function split_from :: "pystr \<Rightarrow> pystr \<Rightarrow> pystr \<Rightarrow> pystr list" where
  "split_from sep piece [] = [piece]"
| "split_from sep piece (c # cs) =
     (if sep \<noteq> [] \<and> take (length sep) (c # cs) = sep
      then piece # split_from sep [] (drop (length sep - 1) cs)
      else split_from sep (piece @ [c]) cs)"
  by pat_completeness auto
termination
  by (relation "measure (\<lambda>(sep, piece, s). length s)") auto

definition split :: "pystr \<Rightarrow> pystr \<Rightarrow> pystr list" where
  "split s sep = split_from sep [] s"

text \<open>
  \<open>str.lower()\<close> on ASCII text: the letters \<open>A\<close> to \<open>Z\<close> move to \<open>a\<close> to \<open>z\<close>. The
  file types the program passes, \<open>PDF\<close> and \<open>TXT\<close>, are ASCII; other code points are
  left as they are.
\<close>

definition lower :: "pystr \<Rightarrow> pystr" where
  "lower s = map (\<lambda>c. if 65 \<le> c \<and> c \<le> 90 then c + 32 else c) s"

text \<open>The decimal digits of a natural number, as \<open>str(n)\<close> and an f-string print it.\<close>

fun str :: "nat \<Rightarrow> pystr" where
  "str n = (if n < 10 then [48 + n] else str (n div 10) @ [48 + n mod 10])"

declare str.simps [simp del]

section \<open>Exceptions\<close>

text \<open>
  An exception is a value; a call that may raise returns \<open>exn + 'a\<close>, with \<open>Inl\<close> the
  exception raised. Only subclasses of \<open>Exception\<close> are modelled, which is what the
  handlers of the source catch. The string is the class name.
\<close>

datatype exn = Exception string

section \<open>Storing the sections\<close>

text \<open>
  The collection is an object of the vector database, outside the program. The store
  operation takes its \<open>add\<close> method as a parameter: \<open>add c doc_id section\<close> is the
  collection after the call, or the exception the call raised (the collection is then
  taken to be as before). The lines the loop prints are returned as a log.
\<close>

datatype log_line = Added pystr | Error_adding pystr exn

fun log_id :: "log_line \<Rightarrow> pystr" where
  "log_id (Added i) = i"
| "log_id (Error_adding i e) = i"

fun is_added :: "log_line \<Rightarrow> bool" where
  "is_added (Added i) = True"
| "is_added (Error_adding i e) = False"

fun is_error :: "log_line \<Rightarrow> bool" where
  "is_error (Added i) = False"
| "is_error (Error_adding i e) = True"

text \<open>The split of the content into sections, by file type (lines 244 to 251).\<close>

definition sections :: "pystr \<Rightarrow> pystr \<Rightarrow> pystr list" where
  "sections content file_type =
     (if file_type = lit ''PDF''
      then map strip (filter (\<lambda>section. strip section \<noteq> []) (split content (lit ''Page '')))
      else map strip (filter (\<lambda>p. strip p \<noteq> []) (split content [10, 10])))"

text \<open>The identifier of the section at position \<open>idx\<close> (line 260).\<close>

definition doc_id :: "pystr \<Rightarrow> nat \<Rightarrow> pystr" where
  "doc_id file_type idx = lower file_type @ lit ''_doc_'' @ str (idx + 1)"

text \<open>
  The loop of lines 256 to 272 over \<open>enumerate(sections)\<close>. The state is the collection,
  \<open>documents_added\<close> and the log.
\<close>

fun store_loop ::
  "('c \<Rightarrow> pystr \<Rightarrow> pystr \<Rightarrow> exn + 'c) \<Rightarrow> pystr \<Rightarrow> (nat \<times> pystr) list \<Rightarrow>
     'c \<times> nat \<times> log_line list \<Rightarrow> 'c \<times> nat \<times> log_line list" where
  "store_loop add file_type [] st = st"
| "store_loop add file_type ((idx, section) # rest) (collection, documents_added, printed) =
     (if section \<noteq> [] \<and> length section > 10
      then (case add collection (doc_id file_type idx) section of
              Inr collection' \<Rightarrow>
                store_loop add file_type rest
                  (collection', documents_added + 1, printed @ [Added (doc_id file_type idx)])
            | Inl e \<Rightarrow>
                store_loop add file_type rest
                  (collection, documents_added, printed @ [Error_adding (doc_id file_type idx) e]))
      else store_loop add file_type rest (collection, documents_added, printed))"

definition process_and_store_content ::
  "('c \<Rightarrow> pystr \<Rightarrow> pystr \<Rightarrow> exn + 'c) \<Rightarrow> 'c \<Rightarrow> pystr \<Rightarrow> pystr \<Rightarrow> 'c \<times> nat \<times> log_line list" where
  "process_and_store_content add collection content file_type =
     store_loop add file_type (enumerate 0 (sections content file_type)) (collection, 0, [])"

section \<open>Extracting the text\<close>

subsection \<open>PDF files\<close>

text \<open>
  The PDF library is outside the program. What it makes of a file is the input: the
  exception raised on opening or parsing, or the pages in order, each with what
  \<open>extract_text\<close> gives for it (the page's text, or the exception it raises).
\<close>

type_synonym pdf_file = "exn + (exn + pystr) list"

text \<open>
  The loop of lines 157 to 162 over \<open>enumerate(pdf_reader.pages)\<close>; an exception leaves
  it at once.
\<close>

fun pages_loop :: "(nat \<times> (exn + pystr)) list \<Rightarrow> pystr \<Rightarrow> exn + pystr" where
  "pages_loop [] text_content = Inr text_content"
| "pages_loop ((page_num, page) # rest) text_content =
     (case page of
        Inl e \<Rightarrow> Inl e
      | Inr page_text \<Rightarrow>
          (if strip page_text \<noteq> []
           then pages_loop rest
                  (text_content @ lit ''Page '' @ str (page_num + 1) @ lit '':'' @ [10] @
                   page_text @ [10, 10])
           else pages_loop rest text_content))"

text \<open>\<open>None\<close> is Python's \<open>None\<close>, the failure signal of both extractors.\<close>

definition extract_text_from_pdf :: "pdf_file \<Rightarrow> pystr option" where
  "extract_text_from_pdf pdf =
     (case pdf of
        Inl e \<Rightarrow> None
      | Inr pages \<Rightarrow>
          (case pages_loop (enumerate 0 pages) [] of
             Inl e \<Rightarrow> None
           | Inr text_content \<Rightarrow> (if text_content = [] then None else Some text_content)))"

subsection \<open>Text files\<close>

type_synonym byte = "8 word"

datatype encoding = UTF_8 | LATIN_1 | CP1252 | ISO_8859_1

definition encodings_to_try :: "encoding list" where
  "encodings_to_try = [UTF_8, LATIN_1, CP1252, ISO_8859_1]"

text \<open>
  A file opened in text mode with the default \<open>newline\<close> is read with universal
  newlines: \<open>\r\n\<close> and a lone \<open>\r\<close> arrive as \<open>\n\<close>.
\<close>

fun universal_newlines :: "pystr \<Rightarrow> pystr" where
  "universal_newlines [] = []"
| "universal_newlines [c] = [if c = 13 then 10 else c]"
| "universal_newlines (c # d # cs) =
     (if c = 13 \<and> d = 10 then 10 # universal_newlines cs
      else (if c = 13 then 10 else c) # universal_newlines (d # cs))"

text \<open>
  The codecs are outside the program: \<open>decode encoding bytes\<close> is the decoded text, or
  \<open>None\<close> when the codec raises \<open>UnicodeDecodeError\<close>. The loop of lines 206 to 214
  returns at the first encoding that decodes.
\<close>

fun try_encodings ::
  "(encoding \<Rightarrow> byte list \<Rightarrow> pystr option) \<Rightarrow> byte list \<Rightarrow> encoding list \<Rightarrow> pystr option" where
  "try_encodings decode bytes [] = None"
| "try_encodings decode bytes (encoding # rest) =
     (case decode encoding bytes of
        Some content \<Rightarrow> Some (universal_newlines content)
      | None \<Rightarrow> try_encodings decode bytes rest)"

text \<open>
  The file is the exception \<open>open\<close> or \<open>read\<close> raises (an \<open>OSError\<close>, which the function
  does not catch), or the bytes read.
\<close>

definition extract_text_from_txt ::
  "(encoding \<Rightarrow> byte list \<Rightarrow> pystr option) \<Rightarrow> exn + byte list \<Rightarrow> exn + pystr option" where
  "extract_text_from_txt decode txt_file =
     (case txt_file of
        Inl e \<Rightarrow> Inl e
      | Inr bytes \<Rightarrow> Inr (try_encodings decode bytes encodings_to_try))"

text \<open>
  Python's codecs. Latin-1 maps the byte \<open>b\<close> to the code point \<open>b\<close> and so decodes every
  byte sequence; \<open>iso-8859-1\<close> is another name of the same codec. The decoders of UTF-8
  and of \<open>cp1252\<close>, which do reject some byte sequences, are parameters.
\<close>

definition decode_latin_1 :: "byte list \<Rightarrow> pystr" where
  "decode_latin_1 bytes = map unat bytes"

definition codecs ::
  "(byte list \<Rightarrow> pystr option) \<Rightarrow> (byte list \<Rightarrow> pystr option) \<Rightarrow>
     encoding \<Rightarrow> byte list \<Rightarrow> pystr option" where
  "codecs utf_8_decoder cp1252_decoder encoding bytes =
     (case encoding of
        UTF_8 \<Rightarrow> utf_8_decoder bytes
      | LATIN_1 \<Rightarrow> Some (decode_latin_1 bytes)
      | CP1252 \<Rightarrow> cp1252_decoder bytes
      | ISO_8859_1 \<Rightarrow> Some (decode_latin_1 bytes))"

section \<open>The query and its results\<close>

text \<open>
  What \<open>collection.query\<close> returns for one query text: under \<open>documents\<close> and
  \<open>distances\<close>, one list per query text. Distances are floating-point numbers in the
  program; they are real numbers here, so \<open>1 - distance\<close> is exact.
\<close>

record query_result =
  documents :: "pystr list list"
  distances :: "real list list"

text \<open>
  The trace of a run: the lines it prints (banners left out) and the calls it makes to
  \<open>collection.query\<close>, in order.
\<close>

datatype event =
    Connected
  | Extraction_failed
  | Store log_line
  | No_documents_stored
  | Query_call pystr nat
  | Result nat real pystr
  | No_results
  | Query_error exn
  | Session_completed
  | Error_occurred exn

definition preview :: "pystr \<Rightarrow> pystr" where
  "preview doc = take 500 doc @ (if length doc > 500 then lit ''...'' else [])"

text \<open>
  Lines 364 to 380. \<open>results['distances'][0]\<close> raises \<open>IndexError\<close> on an empty list;
  \<open>zip\<close> stops at the shorter of its two lists.
\<close>

definition display_results :: "query_result \<Rightarrow> exn + event list" where
  "display_results results =
     (if documents results \<noteq> [] \<and> hd (documents results) \<noteq> []
      then (case distances results of
              [] \<Rightarrow> Inl (Exception ''IndexError'')
            | ds # _ \<Rightarrow>
                Inr (map (\<lambda>(i, doc, distance). Result (i + 1) (1 - distance) (preview doc))
                       (enumerate 0 (zip (hd (documents results)) ds))))
      else Inr [No_results])"

section \<open>The run\<close>

text \<open>
  The services a run calls: the collection's \<open>add\<close> and \<open>query\<close>, and the codecs. The
  document is the file as the PDF library reads it and as its bytes.
\<close>

record 'c services =
  collection_add :: "'c \<Rightarrow> pystr \<Rightarrow> pystr \<Rightarrow> exn + 'c"
  collection_query :: "'c \<Rightarrow> pystr \<Rightarrow> nat \<Rightarrow> exn + query_result"
  codec_decode :: "encoding \<Rightarrow> byte list \<Rightarrow> pystr option"

record document =
  as_pdf :: pdf_file
  as_txt :: "exn + byte list"

text \<open>Lines 350 to 383: the query, its results, and the handler around both.\<close>

definition run_query :: "'c services \<Rightarrow> 'c \<Rightarrow> pystr \<Rightarrow> nat \<Rightarrow> event list" where
  "run_query sv collection user_query docs_count =
     Query_call user_query (min 5 docs_count) #
     (case collection_query sv collection user_query (min 5 docs_count) of
        Inl e \<Rightarrow> [Query_error e]
      | Inr results \<Rightarrow>
          (case display_results results of
             Inl e \<Rightarrow> [Query_error e]
           | Inr shown \<Rightarrow> shown))"

text \<open>Lines 313 to 318 and 325 to 328: the file type chosen, and the extractor for it.\<close>

definition file_type_of :: "pystr \<Rightarrow> pystr" where
  "file_type_of choice = (if choice = lit ''1'' then lit ''PDF'' else lit ''TXT'')"

definition extract_content :: "'c services \<Rightarrow> pystr \<Rightarrow> document \<Rightarrow> exn + pystr option" where
  "extract_content sv file_type file =
     (if file_type = lit ''PDF''
      then Inr (extract_text_from_pdf (as_pdf file))
      else extract_text_from_txt (codec_decode sv) (as_txt file))"

text \<open>
  Lines 295 to 307: the client is created, which may raise; then the connection is
  reported, and \<open>get_or_create_collection\<close> returns the collection or raises.
\<close>

datatype 'c connection = Client_failed exn | Collection_failed exn | Got_collection 'c

text \<open>
  \<open>main\<close>. \<open>connect\<close> is what the two calls of lines 298 and 307 give; \<open>choice\<close>, the
  document and \<open>user_query\<close> are what the three input functions return. The result is
  the collection at the end, if there is one, and the trace.
\<close>

definition main ::
  "'c services \<Rightarrow> 'c connection \<Rightarrow> pystr \<Rightarrow> document \<Rightarrow> pystr \<Rightarrow> 'c option \<times> event list" where
  "main sv connect choice file user_query =
     (case connect of
        Client_failed e \<Rightarrow> (None, [Error_occurred e])
      | Collection_failed e \<Rightarrow> (None, [Connected, Error_occurred e])
      | Got_collection collection \<Rightarrow>
          (let file_type = file_type_of choice
           in case extract_content sv file_type file of
                Inl e \<Rightarrow> (Some collection, [Connected, Error_occurred e])
              | Inr None \<Rightarrow> (Some collection, [Connected, Extraction_failed])
              | Inr (Some content) \<Rightarrow>
                  (if content = [] then (Some collection, [Connected, Extraction_failed])
                   else (case process_and_store_content (collection_add sv) collection content file_type of
                           (collection', docs_count, printed) \<Rightarrow>
                             (if docs_count = 0
                              then (Some collection',
                                    Connected # map Store printed @ [No_documents_stored])
                              else (Some collection',
                                    Connected # map Store printed @
                                    run_query sv collection' user_query docs_count @
                                    [Session_completed]))))))"

section \<open>A collection\<close>

text \<open>
  Modelled from the spec: the collection of the vector database, which is not part of
  the repository. A collection is its records in insertion order, each an identifier
  and a text (the vector is opaque).

  The repository does not fix what the collection's \<open>add\<close> does with an identifier
  that is already stored, so the store operation takes \<open>add\<close> as a parameter. Three
  stores are modelled from the spec's data model and its \<open>addAll\<close>. \<open>upsert\<close> replaces
  the text under an identifier already stored, without an error. \<open>keep_existing\<close>
  neither raises nor replaces: the record already stored stays. \<open>strict_add\<close> is the
  strict insert: the identifier is rejected, the call raises and the collection stays
  as it is. The three agree on an identifier that is not yet stored: one record is
  appended.
\<close>

type_synonym collection = "(pystr \<times> pystr) list"

definition upsert :: "collection \<Rightarrow> pystr \<Rightarrow> pystr \<Rightarrow> exn + collection" where
  "upsert c i d =
     Inr (if i \<in> set (map fst c)
          then map (\<lambda>(j, t). if j = i then (j, d) else (j, t)) c
          else c @ [(i, d)])"


definition strict_add :: "collection \<Rightarrow> pystr \<Rightarrow> pystr \<Rightarrow> exn + collection" where
  "strict_add c i d =
     (if i \<in> set (map fst c) then Inl (Exception ''DuplicateIDError'') else Inr (c @ [(i, d)]))"

text \<open>
  What \<open>upsert\<close> and \<open>keep_existing\<close> have in common, as a condition on any \<open>add\<close>: an
  identifier already stored is accepted (the call does not raise) and the identifiers
  of the collection stay as they are; a call with a new identifier that does not raise
  appends one record under it.
\<close>

definition one_record_per_id :: "(collection \<Rightarrow> pystr \<Rightarrow> pystr \<Rightarrow> exn + collection) \<Rightarrow> bool" where
  "one_record_per_id add \<longleftrightarrow>
     (\<forall>c i d.
        (i \<in> set (map fst c) \<longrightarrow> (\<exists>c'. add c i d = Inr c' \<and> map fst c' = map fst c)) \<and>
        (i \<notin> set (map fst c) \<longrightarrow> (\<forall>c'. add c i d = Inr c' \<longrightarrow> map fst c' = map fst c @ [i])))"


text \<open>
  Modelled from the spec: the similarity search, \<open>up to limit nearest records by vector
  distance\<close>. The distance between a query text and a stored text is a parameter; the
  search returns the \<open>n\<close> records nearest to the query, by ascending distance.
\<close>

definition nearest :: "(pystr \<Rightarrow> pystr \<Rightarrow> real) \<Rightarrow> collection \<Rightarrow> pystr \<Rightarrow> nat \<Rightarrow> pystr list" where
  "nearest distance_of c q n = take n (sort_key (distance_of q) (map snd c))"

definition similarity_search ::
  "(pystr \<Rightarrow> pystr \<Rightarrow> real) \<Rightarrow> collection \<Rightarrow> pystr \<Rightarrow> nat \<Rightarrow> exn + query_result" where
  "similarity_search distance_of c q n =
     Inr \<lparr>documents = [nearest distance_of c q n], distances = [map (distance_of q) (nearest distance_of c q n)]\<rparr>"

section \<open>Reading a trace\<close>

text \<open>
  What a reader sees in a trace: the relevance scores shown, the calls of
  \<open>collection.query\<close> with the number of results asked for, and the lines printed while
  storing.
\<close>

fun relevance_scores :: "event list \<Rightarrow> real list" where
  "relevance_scores [] = []"
| "relevance_scores (Result i relevance_score shown # evs) = relevance_score # relevance_scores evs"
| "relevance_scores (ev # evs) = relevance_scores evs"

fun query_calls :: "event list \<Rightarrow> (pystr \<times> nat) list" where
  "query_calls [] = []"
| "query_calls (Query_call q n # evs) = (q, n) # query_calls evs"
| "query_calls (ev # evs) = query_calls evs"

fun stored_lines :: "event list \<Rightarrow> log_line list" where
  "stored_lines [] = []"
| "stored_lines (Store l # evs) = l # stored_lines evs"
| "stored_lines (ev # evs) = stored_lines evs"

section \<open>Properties of the helper functions\<close>

subsection \<open>Decimal digits\<close>

lemma str_not_Nil: "str n \<noteq> []"
  by (subst str.simps) simp

lemma str_inj: "str m = str n \<Longrightarrow> m = n"
proof (induction m arbitrary: n rule: str.induct)
  case (1 m)
  show ?case
  proof (cases "m < 10")
    case True
    show ?thesis
    proof (cases "n < 10")
      case True
      with \<open>m < 10\<close> "1.prems" show ?thesis by (simp add: str.simps)
    next
      case False
      with \<open>m < 10\<close> "1.prems" have "[48 + m] = str (n div 10) @ [48 + n mod 10]"
        by (simp add: str.simps [of m] str.simps [of n])
      then have "str (n div 10) = []" by (metis butlast.simps(2) butlast_snoc)
      then show ?thesis by (simp add: str_not_Nil)
    qed
  next
    case False
    show ?thesis
    proof (cases "n < 10")
      case True
      with \<open>\<not> m < 10\<close> "1.prems" have "str (m div 10) @ [48 + m mod 10] = [48 + n]"
        by (simp add: str.simps [of m] str.simps [of n])
      then have "str (m div 10) = []" by (metis butlast.simps(2) butlast_snoc)
      then show ?thesis by (simp add: str_not_Nil)
    next
      case False
      with \<open>\<not> m < 10\<close> "1.prems"
      have "str (m div 10) @ [48 + m mod 10] = str (n div 10) @ [48 + n mod 10]"
        by (simp add: str.simps [of m] str.simps [of n])
      then have a: "str (m div 10) = str (n div 10)" and b: "m mod 10 = n mod 10"
        by simp_all
      from "1.IH" [OF \<open>\<not> m < 10\<close> a] have "m div 10 = n div 10" .
      with b show ?thesis by (metis div_mult_mod_eq)
    qed
  qed
qed

lemma doc_id_inj: "doc_id file_type i = doc_id file_type j \<Longrightarrow> i = j"
  by (auto simp: doc_id_def dest: str_inj)

subsection \<open>The store loop\<close>

text \<open>
  The loop started with a count and a log is the loop started with neither, with the
  count added and the log put in front.
\<close>

lemma long_section: "10 < length s \<Longrightarrow> (s = []) = False"
  by auto

lemma store_loop_acc:
  "store_loop add file_type xs (c, n, printed) =
     (case store_loop add file_type xs (c, 0, []) of (c', k, new) \<Rightarrow> (c', n + k, printed @ new))"
proof (induction xs arbitrary: c n printed)
  case Nil
  show ?case by simp
next
  case (Cons x xs)
  obtain idx s where x: "x = (idx, s)" by (cases x)
  show ?case
  proof (cases "10 < length s")
    case False
    then show ?thesis using Cons.IH [of c n printed] by (simp add: x long_section)
  next
    case True
    show ?thesis
    proof (cases "add c (doc_id file_type idx) s")
      case (Inl e)
      obtain c' k new where r: "store_loop add file_type xs (c, 0, []) = (c', k, new)"
        by (cases "store_loop add file_type xs (c, 0, [])") auto
      have "store_loop add file_type xs (c, n, printed @ [Error_adding (doc_id file_type idx) e])
            = (c', n + k, printed @ Error_adding (doc_id file_type idx) e # new)"
        by (simp add: Cons.IH [of c n "printed @ [Error_adding (doc_id file_type idx) e]"] r)
      moreover have "store_loop add file_type xs (c, 0, [Error_adding (doc_id file_type idx) e])
            = (c', k, Error_adding (doc_id file_type idx) e # new)"
        by (simp add: Cons.IH [of c 0 "[Error_adding (doc_id file_type idx) e]"] r)
      ultimately show ?thesis using True Inl by (simp add: x long_section)
    next
      case (Inr c2)
      obtain c' k new where r: "store_loop add file_type xs (c2, 0, []) = (c', k, new)"
        by (cases "store_loop add file_type xs (c2, 0, [])") auto
      have "store_loop add file_type xs (c2, Suc n, printed @ [Added (doc_id file_type idx)])
            = (c', Suc n + k, printed @ Added (doc_id file_type idx) # new)"
        by (simp add: Cons.IH [of c2 "Suc n" "printed @ [Added (doc_id file_type idx)]"] r)
      moreover have "store_loop add file_type xs (c2, Suc 0, [Added (doc_id file_type idx)])
            = (c', Suc k, Added (doc_id file_type idx) # new)"
        by (simp add: Cons.IH [of c2 "Suc 0" "[Added (doc_id file_type idx)]"] r)
      ultimately show ?thesis using True Inr by (simp add: x long_section)
    qed
  qed
qed


lemma store_loop_short:
  "\<not> 10 < length s \<Longrightarrow>
     store_loop add file_type ((idx, s) # rest) (c, 0, []) = store_loop add file_type rest (c, 0, [])"
  by simp

lemma store_loop_raised:
  "10 < length s \<Longrightarrow> add c (doc_id file_type idx) s = Inl e \<Longrightarrow>
     store_loop add file_type ((idx, s) # rest) (c, 0, []) =
       (case store_loop add file_type rest (c, 0, []) of
          (c', k, new) \<Rightarrow> (c', k, Error_adding (doc_id file_type idx) e # new))"
  by (simp add: long_section
        store_loop_acc [of add file_type rest c 0 "[Error_adding (doc_id file_type idx) e]"])

lemma store_loop_added:
  "10 < length s \<Longrightarrow> add c (doc_id file_type idx) s = Inr c2 \<Longrightarrow>
     store_loop add file_type ((idx, s) # rest) (c, 0, []) =
       (case store_loop add file_type rest (c2, 0, []) of
          (c', k, new) \<Rightarrow> (c', Suc k, Added (doc_id file_type idx) # new))"
  by (simp add: long_section
        store_loop_acc [of add file_type rest c2 "Suc 0" "[Added (doc_id file_type idx)]"])

lemmas store_loop_step = store_loop_short store_loop_raised store_loop_added

lemma store_loop_ids:
  "map log_id (snd (snd (store_loop add file_type xs (c, 0, [])))) =
     map (\<lambda>(idx, s). doc_id file_type idx) (filter (\<lambda>(idx, s). 10 < length s) xs)"
proof (induction xs arbitrary: c)
  case Nil
  show ?case by simp
next
  case (Cons x xs)
  obtain idx s where x: "x = (idx, s)" by (cases x)
  show ?case
  proof (cases "10 < length s")
    case False
    then show ?thesis unfolding x using Cons.IH [of c] by simp
  next
    case True
    show ?thesis
    proof (cases "add c (doc_id file_type idx) s")
      case (Inl e)
      show ?thesis unfolding x store_loop_raised [where add = add, OF True Inl]
        using Cons.IH [of c] True by (simp add: case_prod_beta)
    next
      case (Inr c2)
      show ?thesis unfolding x store_loop_added [where add = add, OF True Inr]
        using Cons.IH [of c2] True by (simp add: case_prod_beta)
    qed
  qed
qed

lemma store_loop_count:
  "fst (snd (store_loop add file_type xs (c, 0, []))) =
     length (filter is_added (snd (snd (store_loop add file_type xs (c, 0, [])))))"
proof (induction xs arbitrary: c)
  case Nil
  show ?case by simp
next
  case (Cons x xs)
  obtain idx s where x: "x = (idx, s)" by (cases x)
  show ?case
  proof (cases "10 < length s")
    case False
    then show ?thesis unfolding x using Cons.IH [of c] by simp
  next
    case True
    show ?thesis
    proof (cases "add c (doc_id file_type idx) s")
      case (Inl e)
      show ?thesis unfolding x store_loop_raised [where add = add, OF True Inl]
        using Cons.IH [of c] by (simp add: case_prod_beta)
    next
      case (Inr c2)
      show ?thesis unfolding x store_loop_added [where add = add, OF True Inr]
        using Cons.IH [of c2] by (simp add: case_prod_beta)
    qed
  qed
qed


subsection \<open>Positions and identifiers\<close>

lemma enumerate_filter_nth:
  "map fst (filter (\<lambda>(idx, s). Q s) (enumerate 0 xs)) = filter (\<lambda>idx. Q (xs ! idx)) [0..<length xs]"
proof (induction xs rule: rev_induct)
  case Nil
  show ?case by simp
next
  case (snoc x xs)
  have "filter (\<lambda>idx. Q ((xs @ [x]) ! idx)) [0..<length xs] = filter (\<lambda>idx. Q (xs ! idx)) [0..<length xs]"
    by (rule filter_cong) (auto simp: nth_append)
  then show ?case using snoc.IH by (simp add: enumerate_append_eq)
qed

lemma enumerate_ids:
  "map (\<lambda>(idx, s). doc_id file_type idx) (filter (\<lambda>(idx, s). 10 < length s) (enumerate 0 xs)) =
     map (doc_id file_type) (filter (\<lambda>idx. 10 < length (xs ! idx)) [0..<length xs])"
proof -
  have "map (\<lambda>(idx, s). doc_id file_type idx) (filter (\<lambda>(idx, s). 10 < length s) (enumerate 0 xs)) =
        map (doc_id file_type) (map fst (filter (\<lambda>(idx, s). 10 < length s) (enumerate 0 xs)))"
    by (simp add: case_prod_beta comp_def)
  then show ?thesis by (simp only: enumerate_filter_nth)
qed

lemma enumerate_texts:
  "map snd (filter (\<lambda>(idx, s). Q s) (enumerate n xs)) = filter Q xs"
  by (induction xs arbitrary: n) auto

lemma distinct_doc_ids: "distinct is \<Longrightarrow> distinct (map (doc_id file_type) is)"
  by (simp add: distinct_map inj_on_def) (metis doc_id_inj)

subsection \<open>The store loop on a collection that rejects duplicates\<close>

lemma strict_loop:
  assumes "distinct (map fst xs)"
  shows "store_loop strict_add file_type xs (c, 0, []) =
     (c @ map (\<lambda>(idx, s). (doc_id file_type idx, s))
            (filter (\<lambda>(idx, s). 10 < length s \<and> doc_id file_type idx \<notin> set (map fst c)) xs),
      length (filter (\<lambda>(idx, s). 10 < length s \<and> doc_id file_type idx \<notin> set (map fst c)) xs),
      map (\<lambda>(idx, s). if doc_id file_type idx \<in> set (map fst c)
                        then Error_adding (doc_id file_type idx) (Exception ''DuplicateIDError'')
                        else Added (doc_id file_type idx))
          (filter (\<lambda>(idx, s). 10 < length s) xs))"
  using assms
proof (induction xs arbitrary: c)
  case Nil
  show ?case by simp
next
  case (Cons x xs)
  obtain idx s where x: "x = (idx, s)" by (cases x)
  from Cons.prems have d: "distinct (map fst xs)" and fresh: "idx \<notin> fst ` set xs"
    by (simp_all add: x)
  note IH = Cons.IH [OF d]
  show ?case
  proof (cases "10 < length s")
    case False
    then show ?thesis unfolding x using IH [of c] by simp
  next
    case True
    show ?thesis
    proof (cases "doc_id file_type idx \<in> set (map fst c)")
      case True
      then have r: "strict_add c (doc_id file_type idx) s = Inl (Exception ''DuplicateIDError'')"
        by (simp add: strict_add_def)
      show ?thesis
        unfolding x store_loop_raised [where add = strict_add, OF \<open>10 < length s\<close> r]
        using True \<open>10 < length s\<close> by (simp add: IH [of c])
    next
      case False
      then have r: "strict_add c (doc_id file_type idx) s = Inr (c @ [(doc_id file_type idx, s)])"
        by (simp add: strict_add_def)
      have other: "doc_id file_type j \<noteq> doc_id file_type idx" if "(j, t) \<in> set xs" for j t
        using that fresh doc_id_inj by force
      have f: "filter (\<lambda>(j, t). 10 < length t \<and>
                  doc_id file_type j \<notin> set (map fst (c @ [(doc_id file_type idx, s)]))) xs =
               filter (\<lambda>(j, t). 10 < length t \<and> doc_id file_type j \<notin> set (map fst c)) xs"
        by (rule filter_cong) (auto dest: other)
      have g: "map (\<lambda>(j, t). if doc_id file_type j \<in> set (map fst (c @ [(doc_id file_type idx, s)]))
                        then Error_adding (doc_id file_type j) (Exception ''DuplicateIDError'')
                        else Added (doc_id file_type j))
                 (filter (\<lambda>(j, t). 10 < length t) xs) =
               map (\<lambda>(j, t). if doc_id file_type j \<in> set (map fst c)
                        then Error_adding (doc_id file_type j) (Exception ''DuplicateIDError'')
                        else Added (doc_id file_type j))
                 (filter (\<lambda>(j, t). 10 < length t) xs)"
        by (rule map_cong) (auto dest: other)
      have ih: "store_loop strict_add file_type xs (c @ [(doc_id file_type idx, s)], 0, []) =
        ((c @ [(doc_id file_type idx, s)]) @ map (\<lambda>(idx, s). (doc_id file_type idx, s))
            (filter (\<lambda>(idx, s). 10 < length s \<and> doc_id file_type idx \<notin> set (map fst c)) xs),
         length (filter (\<lambda>(idx, s). 10 < length s \<and> doc_id file_type idx \<notin> set (map fst c)) xs),
         map (\<lambda>(idx, s). if doc_id file_type idx \<in> set (map fst c)
                        then Error_adding (doc_id file_type idx) (Exception ''DuplicateIDError'')
                        else Added (doc_id file_type idx))
          (filter (\<lambda>(idx, s). 10 < length s) xs))"
        unfolding IH [of "c @ [(doc_id file_type idx, s)]"] f g ..
      show ?thesis
        unfolding x store_loop_added [where add = strict_add, OF \<open>10 < length s\<close> r] ih
        using False \<open>10 < length s\<close> by simp
    qed
  qed
qed


subsection \<open>The store operation\<close>

lemma distinct_enumerate_fst: "distinct (map fst (enumerate n xs))"
  by (simp add: enumerate_eq_zip)

lemma strict_store:
  "process_and_store_content strict_add c content file_type =
     (c @ map (\<lambda>(idx, s). (doc_id file_type idx, s))
            (filter (\<lambda>(idx, s). 10 < length s \<and> doc_id file_type idx \<notin> set (map fst c))
               (enumerate 0 (sections content file_type))),
      length (filter (\<lambda>(idx, s). 10 < length s \<and> doc_id file_type idx \<notin> set (map fst c))
               (enumerate 0 (sections content file_type))),
      map (\<lambda>(idx, s). if doc_id file_type idx \<in> set (map fst c)
                        then Error_adding (doc_id file_type idx) (Exception ''DuplicateIDError'')
                        else Added (doc_id file_type idx))
          (filter (\<lambda>(idx, s). 10 < length s) (enumerate 0 (sections content file_type))))"
  unfolding process_and_store_content_def
  by (rule strict_loop) (rule distinct_enumerate_fst)

lemma store_ids:
  "map log_id (snd (snd (process_and_store_content add c content file_type))) =
     map (doc_id file_type)
       (filter (\<lambda>idx. 10 < length (sections content file_type ! idx))
          [0..<length (sections content file_type)])"
  by (simp add: process_and_store_content_def store_loop_ids enumerate_ids)

lemma strict_store_distinct:
  assumes "distinct (map fst c)"
  shows "distinct (map fst (fst (process_and_store_content strict_add c content file_type)))"
proof -
  define ys where "ys = filter (\<lambda>(idx, s). 10 < length s \<and> doc_id file_type idx \<notin> set (map fst c))
               (enumerate 0 (sections content file_type))"
  have ids: "map fst (fst (process_and_store_content strict_add c content file_type)) =
        map fst c @ map (doc_id file_type) (map fst ys)"
    by (simp add: strict_store ys_def case_prod_beta comp_def)
  have "distinct (map fst ys)"
    unfolding ys_def by (rule distinct_map_filter) (rule distinct_enumerate_fst)
  then have new: "distinct (map (doc_id file_type) (map fst ys))"
    by (rule distinct_doc_ids)
  have apart: "set (map fst c) \<inter> set (map (doc_id file_type) (map fst ys)) = {}"
    unfolding ys_def by (force simp: image_iff)
  from assms new apart show ?thesis
    unfolding ids by simp
qed

section \<open>Properties of the program\<close>

text \<open>
  C2. Whatever the collection and whatever its \<open>add\<close> does, the identifiers the store
  operation passes to \<open>add\<close>, in order, are \<open>lower(file_type)_doc_{idx+1}\<close> for the
  positions \<open>idx\<close> of the sections longer than 10 characters, where \<open>idx\<close> is the
  0-based position in the list of sections (short sections keep their positions, so the
  numbering can have gaps). These identifiers are pairwise distinct, they are the same
  on every run on the same content and file type, and they are the identifiers of the
  records in a collection that was empty before. A collection whose identifiers are
  pairwise distinct keeps them so.
\<close>

theorem record_ids_deterministic:
  "map log_id (snd (snd (process_and_store_content add c content file_type))) =
     map (\<lambda>idx. lower file_type @ lit ''_doc_'' @ str (idx + 1))
       (filter (\<lambda>idx. 10 < length (sections content file_type ! idx))
          [0..<length (sections content file_type)])
   \<and> distinct (map log_id (snd (snd (process_and_store_content add c content file_type))))
   \<and> map log_id (snd (snd (process_and_store_content add' c' content file_type))) =
       map log_id (snd (snd (process_and_store_content add c content file_type)))
   \<and> map fst (fst (process_and_store_content strict_add [] content file_type)) =
       map log_id (snd (snd (process_and_store_content add c content file_type)))
   \<and> (distinct (map fst stored) \<longrightarrow>
        distinct (map fst (fst (process_and_store_content strict_add stored content file_type))))"
proof (intro conjI impI)
  show "map log_id (snd (snd (process_and_store_content add c content file_type))) =
     map (\<lambda>idx. lower file_type @ lit ''_doc_'' @ str (idx + 1))
       (filter (\<lambda>idx. 10 < length (sections content file_type ! idx))
          [0..<length (sections content file_type)])"
    by (simp add: store_ids doc_id_def [abs_def])
  show "distinct (map log_id (snd (snd (process_and_store_content add c content file_type))))"
    unfolding store_ids by (rule distinct_doc_ids) simp
  show "map log_id (snd (snd (process_and_store_content add' c' content file_type))) =
       map log_id (snd (snd (process_and_store_content add c content file_type)))"
    by (simp only: store_ids)
  show "map fst (fst (process_and_store_content strict_add [] content file_type)) =
       map log_id (snd (snd (process_and_store_content add c content file_type)))"
    by (simp add: store_ids strict_store enumerate_ids [symmetric] case_prod_beta comp_def)
next
  assume "distinct (map fst stored)"
  then show "distinct (map fst (fst (process_and_store_content strict_add stored content file_type)))"
    by (rule strict_store_distinct)
qed


lemma long_sections:
  "filter (\<lambda>s. 10 < length s) (sections content file_type) =
     filter (\<lambda>s. 10 < length s)
       (map strip (split content (if file_type = lit ''PDF'' then lit ''Page '' else [10, 10])))"
proof -
  have "filter (\<lambda>s. 10 < length s) (map strip (filter (\<lambda>p. strip p \<noteq> []) ps)) =
        filter (\<lambda>s. 10 < length s) (map strip ps)" for ps
    by (induction ps) auto
  then show ?thesis by (simp add: sections_def)
qed

lemma store_attempts:
  "length (snd (snd (process_and_store_content add c content file_type))) =
     length (filter (\<lambda>s. 10 < length s) (sections content file_type))"
proof -
  have "length (snd (snd (process_and_store_content add c content file_type))) =
        length (map log_id (snd (snd (process_and_store_content add c content file_type))))"
    by simp
  also have "\<dots> = length (filter (\<lambda>(idx, s). 10 < length s) (enumerate 0 (sections content file_type)))"
    unfolding process_and_store_content_def store_loop_ids by simp
  also have "\<dots> = length (map snd (filter (\<lambda>(idx, s). 10 < length s) (enumerate 0 (sections content file_type))))"
    by simp
  finally show ?thesis by (simp only: enumerate_texts)
qed

text \<open>
  C5. The texts stored in a collection that was empty before are exactly the pieces of
  the split (at \<open>Page \<close> for a PDF, at a blank line otherwise), trimmed, whose trimmed
  length exceeds 10, in order; the count returned is their number. Whatever the
  collection, one insertion is attempted for each such piece and none for a piece of
  trimmed length 10 or less.
\<close>

theorem short_sections_dropped:
  "map snd (fst (process_and_store_content strict_add [] content file_type)) =
     filter (\<lambda>s. 10 < length s)
       (map strip (split content (if file_type = lit ''PDF'' then lit ''Page '' else [10, 10])))
   \<and> fst (snd (process_and_store_content strict_add [] content file_type)) =
       length (fst (process_and_store_content strict_add [] content file_type))
   \<and> length (snd (snd (process_and_store_content add c content file_type))) =
       length (filter (\<lambda>s. 10 < length s)
         (map strip (split content (if file_type = lit ''PDF'' then lit ''Page '' else [10, 10]))))"
proof (intro conjI)
  have "map snd (fst (process_and_store_content strict_add [] content file_type)) =
        map snd (filter (\<lambda>(idx, s). 10 < length s) (enumerate 0 (sections content file_type)))"
    by (simp add: strict_store case_prod_beta comp_def)
  then show "map snd (fst (process_and_store_content strict_add [] content file_type)) =
     filter (\<lambda>s. 10 < length s)
       (map strip (split content (if file_type = lit ''PDF'' then lit ''Page '' else [10, 10])))"
    by (simp only: enumerate_texts long_sections)
  show "fst (snd (process_and_store_content strict_add [] content file_type)) =
       length (fst (process_and_store_content strict_add [] content file_type))"
    by (simp add: strict_store)
  show "length (snd (snd (process_and_store_content add c content file_type))) =
       length (filter (\<lambda>s. 10 < length s)
         (map strip (split content (if file_type = lit ''PDF'' then lit ''Page '' else [10, 10]))))"
    by (simp only: store_attempts long_sections)
qed

text \<open>
  Scenario B: of three paragraphs, the one of 5 characters is dropped and two records
  are stored.
\<close>

theorem short_sections_dropped_witness:
  "map snd (fst (process_and_store_content strict_add []
      (lit ''The first paragraph.'' @ [10, 10] @ lit ''short'' @ [10, 10] @ lit ''The third paragraph.'')
      (lit ''TXT''))) = [lit ''The first paragraph.'', lit ''The third paragraph.'']
   \<and> fst (snd (process_and_store_content strict_add []
      (lit ''The first paragraph.'' @ [10, 10] @ lit ''short'' @ [10, 10] @ lit ''The third paragraph.'')
      (lit ''TXT''))) = 2"
proof -
  have s: "map strip (split (lit ''The first paragraph.'' @ [10, 10] @ lit ''short'' @ [10, 10] @ lit ''The third paragraph.'') [10, 10])
     = [lit ''The first paragraph.'', lit ''short'', lit ''The third paragraph.'']"
    by (simp add: lit_def split_def strip_def isspace_def whitespace_def)
  have t: "lit ''TXT'' \<noteq> lit ''PDF''" by (simp add: lit_def)
  note inst = short_sections_dropped
    [where content = "lit ''The first paragraph.'' @ [10, 10] @ lit ''short'' @ [10, 10] @ lit ''The third paragraph.''"
       and file_type = "lit ''TXT''" and add = strict_add and c = "[]", unfolded s if_not_P [OF t]]
  have texts: "map snd (fst (process_and_store_content strict_add []
      (lit ''The first paragraph.'' @ [10, 10] @ lit ''short'' @ [10, 10] @ lit ''The third paragraph.'')
      (lit ''TXT''))) = [lit ''The first paragraph.'', lit ''The third paragraph.'']"
    using inst by (simp add: lit_def)
  have "length (map snd (fst (process_and_store_content strict_add []
      (lit ''The first paragraph.'' @ [10, 10] @ lit ''short'' @ [10, 10] @ lit ''The third paragraph.'')
      (lit ''TXT'')))) = 2"
    unfolding texts by simp
  then show ?thesis using texts inst by simp
qed

lemma store_loop_outcomes:
  "l \<in> set (snd (snd (store_loop add file_type xs (c, 0, [])))) \<Longrightarrow>
     (case l of
        Added i \<Rightarrow> \<exists>c0 s c1. add c0 i s = Inr c1
      | Error_adding i e \<Rightarrow> \<exists>c0 s. add c0 i s = Inl e)"
proof (induction xs arbitrary: c)
  case Nil
  then show ?case by simp
next
  case (Cons x xs)
  obtain idx s where x: "x = (idx, s)" by (cases x)
  show ?case
  proof (cases "10 < length s")
    case False
    with Cons.prems have "l \<in> set (snd (snd (store_loop add file_type xs (c, 0, []))))"
      by (simp add: x)
    then show ?thesis by (rule Cons.IH)
  next
    case True
    show ?thesis
    proof (cases "add c (doc_id file_type idx) s")
      case (Inl e)
      from Cons.prems
      have "l = Error_adding (doc_id file_type idx) e \<or>
            l \<in> set (snd (snd (store_loop add file_type xs (c, 0, []))))"
        unfolding x store_loop_raised [where add = add, OF True Inl]
        by (simp add: case_prod_beta)
      then show ?thesis
      proof
        assume "l = Error_adding (doc_id file_type idx) e"
        moreover have "\<exists>c0 s. add c0 (doc_id file_type idx) s = Inl e" using Inl by blast
        ultimately show ?thesis by simp
      next
        assume "l \<in> set (snd (snd (store_loop add file_type xs (c, 0, []))))"
        then show ?thesis by (rule Cons.IH)
      qed
    next
      case (Inr c2)
      from Cons.prems
      have "l = Added (doc_id file_type idx) \<or>
            l \<in> set (snd (snd (store_loop add file_type xs (c2, 0, []))))"
        unfolding x store_loop_added [where add = add, OF True Inr]
        by (simp add: case_prod_beta)
      then show ?thesis
      proof
        assume "l = Added (doc_id file_type idx)"
        moreover have "\<exists>c0 s c1. add c0 (doc_id file_type idx) s = Inr c1" using Inr by blast
        ultimately show ?thesis by simp
      next
        assume "l \<in> set (snd (snd (store_loop add file_type xs (c2, 0, []))))"
        then show ?thesis by (rule Cons.IH)
      qed
    qed
  qed
qed

lemma store_loop_all_fail:
  "(\<And>c i s. add c i s = Inl (err i)) \<Longrightarrow>
     store_loop add file_type xs (c, 0, []) =
       (c, 0, map (\<lambda>(idx, s). Error_adding (doc_id file_type idx) (err (doc_id file_type idx)))
                (filter (\<lambda>(idx, s). 10 < length s) xs))"
proof (induction xs)
  case Nil
  show ?case by simp
next
  case (Cons x xs)
  obtain idx s where x: "x = (idx, s)" by (cases x)
  show ?case
  proof (cases "10 < length s")
    case False
    then show ?thesis unfolding x using Cons.IH [OF Cons.prems] by simp
  next
    case True
    have r: "add c (doc_id file_type idx) s = Inl (err (doc_id file_type idx))"
      by (rule Cons.prems)
    show ?thesis
      unfolding x store_loop_raised [where add = add, OF True r] Cons.IH [OF Cons.prems]
      using True by simp
  qed
qed

lemma is_added_or_error: "length (filter is_added ls) + length (filter is_error ls) = length ls"
proof (induction ls)
  case Nil
  show ?case by simp
next
  case (Cons l ls)
  then show ?case by (cases l) simp_all
qed

text \<open>
  C8. Whatever \<open>add\<close> does, one insertion is attempted for every section longer than 10
  characters, also after an insertion that failed; the count returned is the number of
  insertions that succeeded, and together with the insertions that failed they are all
  the attempts. Each log line records the outcome of a call of \<open>add\<close>: a failure is
  logged with the exception raised. When every insertion fails the collection is as
  before, the count is 0 and there is one error line for each attempt.
\<close>

theorem insertion_failures_skipped:
  "length (snd (snd (process_and_store_content add c content file_type))) =
     length (filter (\<lambda>s. 10 < length s) (sections content file_type))
   \<and> fst (snd (process_and_store_content add c content file_type)) =
       length (filter is_added (snd (snd (process_and_store_content add c content file_type))))
   \<and> fst (snd (process_and_store_content add c content file_type)) +
       length (filter is_error (snd (snd (process_and_store_content add c content file_type)))) =
       length (filter (\<lambda>s. 10 < length s) (sections content file_type))
   \<and> (\<forall>l \<in> set (snd (snd (process_and_store_content add c content file_type))).
         case l of
           Added i \<Rightarrow> \<exists>c0 s c1. add c0 i s = Inr c1
         | Error_adding i e \<Rightarrow> \<exists>c0 s. add c0 i s = Inl e)
   \<and> ((\<forall>c i s. add c i s = Inl (err i)) \<longrightarrow>
        process_and_store_content add c content file_type =
          (c, 0, map (\<lambda>idx. Error_adding (doc_id file_type idx) (err (doc_id file_type idx)))
                   (filter (\<lambda>idx. 10 < length (sections content file_type ! idx))
                      [0..<length (sections content file_type)])))"
proof (intro conjI)
  show a: "length (snd (snd (process_and_store_content add c content file_type))) =
     length (filter (\<lambda>s. 10 < length s) (sections content file_type))"
    by (rule store_attempts)
  show b: "fst (snd (process_and_store_content add c content file_type)) =
       length (filter is_added (snd (snd (process_and_store_content add c content file_type))))"
    unfolding process_and_store_content_def by (rule store_loop_count)
  show "fst (snd (process_and_store_content add c content file_type)) +
       length (filter is_error (snd (snd (process_and_store_content add c content file_type)))) =
       length (filter (\<lambda>s. 10 < length s) (sections content file_type))"
    unfolding b a [symmetric] by (rule is_added_or_error)
  show "\<forall>l \<in> set (snd (snd (process_and_store_content add c content file_type))).
         case l of
           Added i \<Rightarrow> \<exists>c0 s c1. add c0 i s = Inr c1
         | Error_adding i e \<Rightarrow> \<exists>c0 s. add c0 i s = Inl e"
  proof
    fix l
    assume "l \<in> set (snd (snd (process_and_store_content add c content file_type)))"
    then show "case l of
           Added i \<Rightarrow> \<exists>c0 s c1. add c0 i s = Inr c1
         | Error_adding i e \<Rightarrow> \<exists>c0 s. add c0 i s = Inl e"
      unfolding process_and_store_content_def by (rule store_loop_outcomes)
  qed
  show "(\<forall>c i s. add c i s = Inl (err i)) \<longrightarrow>
        process_and_store_content add c content file_type =
          (c, 0, map (\<lambda>idx. Error_adding (doc_id file_type idx) (err (doc_id file_type idx)))
                   (filter (\<lambda>idx. 10 < length (sections content file_type ! idx))
                      [0..<length (sections content file_type)]))"
  proof
    assume f: "\<forall>c i s. add c i s = Inl (err i)"
    have "map (\<lambda>(idx, s). Error_adding (doc_id file_type idx) (err (doc_id file_type idx)))
            (filter (\<lambda>(idx, s). 10 < length s) (enumerate 0 (sections content file_type))) =
          map (\<lambda>idx. Error_adding (doc_id file_type idx) (err (doc_id file_type idx)))
            (map fst (filter (\<lambda>(idx, s). 10 < length s) (enumerate 0 (sections content file_type))))"
      by (simp add: case_prod_beta comp_def)
    then show "process_and_store_content add c content file_type =
          (c, 0, map (\<lambda>idx. Error_adding (doc_id file_type idx) (err (doc_id file_type idx)))
                   (filter (\<lambda>idx. 10 < length (sections content file_type ! idx))
                      [0..<length (sections content file_type)]))"
      unfolding process_and_store_content_def using f
      by (simp only: store_loop_all_fail enumerate_filter_nth)
  qed
qed

subsection \<open>A text of two paragraphs\<close>

lemma two_paragraphs:
  "sections (lit ''The first paragraph.'' @ [10, 10] @ lit ''The second paragraph.'') (lit ''TXT'') =
     [lit ''The first paragraph.'', lit ''The second paragraph.'']"
  by (simp add: sections_def lit_def split_def strip_def isspace_def whitespace_def)

lemma txt_doc_1: "doc_id (lit ''TXT'') 0 = lit ''txt_doc_1''"
  by (simp add: doc_id_def lit_def lower_def str.simps)

lemma txt_doc_2: "doc_id (lit ''TXT'') (Suc 0) = lit ''txt_doc_2''"
  by (simp add: doc_id_def lit_def lower_def str.simps)

lemma positions_two: "[0..<2] = [0, Suc 0]"
  by (simp add: upt_rec)

text \<open>
  Two runs of C8: an \<open>add\<close> that always raises, and a store that rejects an identifier
  it already holds, where the first insertion fails and the second one is still made.
\<close>

theorem insertion_failures_skipped_witness:
  "process_and_store_content (\<lambda>c i s. Inl (Exception ''EmbeddingError'')) ([] :: collection)
     (lit ''The first paragraph.'' @ [10, 10] @ lit ''The second paragraph.'') (lit ''TXT'') =
   ([], 0, [Error_adding (lit ''txt_doc_1'') (Exception ''EmbeddingError''),
            Error_adding (lit ''txt_doc_2'') (Exception ''EmbeddingError'')])
   \<and> process_and_store_content strict_add [(lit ''txt_doc_1'', lit ''An older text.'')]
       (lit ''The first paragraph.'' @ [10, 10] @ lit ''The second paragraph.'') (lit ''TXT'') =
     ([(lit ''txt_doc_1'', lit ''An older text.''), (lit ''txt_doc_2'', lit ''The second paragraph.'')],
      1, [Error_adding (lit ''txt_doc_1'') (Exception ''DuplicateIDError''), Added (lit ''txt_doc_2'')])"
proof
  have "\<forall>(c :: collection) i s. (\<lambda>c i s. Inl (Exception ''EmbeddingError'')) c i s = Inl ((\<lambda>i. Exception ''EmbeddingError'') i)"
    by simp
  with insertion_failures_skipped
    [where add = "\<lambda>(c :: collection) i s. Inl (Exception ''EmbeddingError'')"
       and err = "\<lambda>i. Exception ''EmbeddingError''" and c = "[]"
       and content = "lit ''The first paragraph.'' @ [10, 10] @ lit ''The second paragraph.''"
       and file_type = "lit ''TXT''"]
  have "process_and_store_content (\<lambda>c i s. Inl (Exception ''EmbeddingError'')) ([] :: collection)
     (lit ''The first paragraph.'' @ [10, 10] @ lit ''The second paragraph.'') (lit ''TXT'') =
     ([], 0, map (\<lambda>idx. Error_adding (doc_id (lit ''TXT'') idx) (Exception ''EmbeddingError''))
        (filter (\<lambda>idx. 10 < length (sections (lit ''The first paragraph.'' @ [10, 10] @ lit ''The second paragraph.'') (lit ''TXT'') ! idx))
           [0..<length (sections (lit ''The first paragraph.'' @ [10, 10] @ lit ''The second paragraph.'') (lit ''TXT''))]))"
    by blast
  then show "process_and_store_content (\<lambda>c i s. Inl (Exception ''EmbeddingError'')) ([] :: collection)
     (lit ''The first paragraph.'' @ [10, 10] @ lit ''The second paragraph.'') (lit ''TXT'') =
   ([], 0, [Error_adding (lit ''txt_doc_1'') (Exception ''EmbeddingError''),
            Error_adding (lit ''txt_doc_2'') (Exception ''EmbeddingError'')])"
    unfolding two_paragraphs by (simp add: positions_two txt_doc_1 txt_doc_2) (simp add: lit_def)
next
  have e: "enumerate 0 [lit ''The first paragraph.'', lit ''The second paragraph.''] =
     [(0, lit ''The first paragraph.''), (Suc 0, lit ''The second paragraph.'')]"
    by simp
  show "process_and_store_content strict_add [(lit ''txt_doc_1'', lit ''An older text.'')]
       (lit ''The first paragraph.'' @ [10, 10] @ lit ''The second paragraph.'') (lit ''TXT'') =
     ([(lit ''txt_doc_1'', lit ''An older text.''), (lit ''txt_doc_2'', lit ''The second paragraph.'')],
      1, [Error_adding (lit ''txt_doc_1'') (Exception ''DuplicateIDError''), Added (lit ''txt_doc_2'')])"
    unfolding strict_store two_paragraphs e
    by (simp add: txt_doc_1 txt_doc_2) (simp add: lit_def)
qed

text \<open>
  The identifiers of C2 for a text of two paragraphs, stored in a collection that
  already holds the first of them.
\<close>

theorem record_ids_deterministic_witness:
  "map log_id (snd (snd (process_and_store_content strict_add
      [(lit ''txt_doc_1'', lit ''An older text.'')]
      (lit ''The first paragraph.'' @ [10, 10] @ lit ''The second paragraph.'') (lit ''TXT'')))) =
     [lit ''txt_doc_1'', lit ''txt_doc_2'']
   \<and> distinct (map fst (fst (process_and_store_content strict_add
      [(lit ''txt_doc_1'', lit ''An older text.'')]
      (lit ''The first paragraph.'' @ [10, 10] @ lit ''The second paragraph.'') (lit ''TXT''))))"
proof -
  have d: "distinct (map fst [(lit ''txt_doc_1'', lit ''An older text.'')])"
    by simp
  have l: "10 < length (lit ''The first paragraph.'')" "10 < length (lit ''The second paragraph.'')"
    by (simp_all add: lit_def)
  have i: "lower (lit ''TXT'') @ lit ''_doc_'' @ str (Suc 0) = lit ''txt_doc_1''"
    "lower (lit ''TXT'') @ lit ''_doc_'' @ str (Suc (Suc 0)) = lit ''txt_doc_2''"
    by (simp_all add: lower_def lit_def str.simps)
  note inst = record_ids_deterministic
    [where add = strict_add and c = "[(lit ''txt_doc_1'', lit ''An older text.'')]"
       and add' = strict_add and c' = "[(lit ''txt_doc_1'', lit ''An older text.'')]"
       and stored = "[(lit ''txt_doc_1'', lit ''An older text.'')]"
       and content = "lit ''The first paragraph.'' @ [10, 10] @ lit ''The second paragraph.''"
       and file_type = "lit ''TXT''", unfolded two_paragraphs]
  from inst d l i show ?thesis
    by (simp add: positions_two)
qed

subsection \<open>Stores that accept a stored identifier\<close>









lemma log_of_added:
  "map log_id (map (\<lambda>(idx, s). Added (doc_id file_type idx)) xs) =
     map (\<lambda>(idx, s). doc_id file_type idx) xs"
  by (induction xs) auto


lemma upsert_ids:
  "map fst (map (\<lambda>(j, t). if j = i then (j, d) else (j, t)) c) = map fst c"
  by (induction c) auto


lemma upsert_one_record: "one_record_per_id upsert"
  unfolding one_record_per_id_def
proof (intro allI conjI impI)
  fix c :: collection and i d
  assume "i \<in> set (map fst c)"
  then have "upsert c i d = Inr (map (\<lambda>(j, t). if j = i then (j, d) else (j, t)) c)"
    by (simp add: upsert_def)
  then show "\<exists>c'. upsert c i d = Inr c' \<and> map fst c' = map fst c"
    using upsert_ids [of i d c] by blast
next
  fix c :: collection and i d c'
  assume "i \<notin> set (map fst c)" "upsert c i d = Inr c'"
  then show "map fst c' = map fst c @ [i]"
    by (auto simp: upsert_def)
qed

















subsection \<open>The pages loop\<close>

lemma pages_loop_texts:
  "pages_loop (enumerate k (map Inr texts)) text_content =
     Inr (text_content @
          concat (map (\<lambda>(page_num, page_text).
                         if strip page_text \<noteq> []
                         then lit ''Page '' @ str (page_num + 1) @ lit '':'' @ [10] @ page_text @ [10, 10]
                         else [])
                    (enumerate k texts)))"
  by (induction texts arbitrary: k text_content) simp_all

lemma pages_loop_raises:
  "Inl e \<in> set pages \<Longrightarrow> \<exists>e'. pages_loop (enumerate k pages) text_content = Inl e'"
proof (induction pages arbitrary: k text_content)
  case Nil
  then show ?case by simp
next
  case (Cons page pages)
  show ?case
  proof (cases page)
    case (Inl e')
    then show ?thesis by simp
  next
    case (Inr page_text)
    with Cons.prems have "Inl e \<in> set pages" by auto
    from Cons.IH [OF this] Inr show ?thesis by simp
  qed
qed

lemma marked_pages_empty:
  "concat (map (\<lambda>(page_num, page_text).
                  if strip page_text \<noteq> []
                  then lit ''Page '' @ str (page_num + 1) @ lit '':'' @ [10] @ page_text @ [10, 10]
                  else [])
             (enumerate k texts)) = [] \<longleftrightarrow> (\<forall>page_text \<in> set texts. strip page_text = [])"
  by (induction texts arbitrary: k) (auto simp: lit_def)

text \<open>
  C6. A PDF that cannot be opened or parsed gives the failure signal, and so does one
  with a page whose extraction raises. Otherwise the result is the concatenation, in
  page order, of \<open>Page n:\<close>, a newline, the page's text and two newlines for every page
  whose text is not only whitespace (\<open>n\<close> counts from 1 over all pages), and nothing for
  the other pages; when every page is only whitespace the result is the failure signal.
\<close>

theorem pdf_pages_marked:
  "extract_text_from_pdf (Inl e) = None
   \<and> (Inl e \<in> set pages \<longrightarrow> extract_text_from_pdf (Inr pages) = None)
   \<and> extract_text_from_pdf (Inr (map Inr texts)) =
       (if \<forall>page_text \<in> set texts. strip page_text = [] then None
        else Some (concat (map (\<lambda>(page_num, page_text).
                                  if strip page_text \<noteq> []
                                  then lit ''Page '' @ str (page_num + 1) @ lit '':'' @ [10] @
                                       page_text @ [10, 10]
                                  else [])
                             (enumerate 0 texts))))"
proof (intro conjI impI)
  show "extract_text_from_pdf (Inl e) = None"
    by (simp add: extract_text_from_pdf_def)
next
  assume "Inl e \<in> set pages"
  from pages_loop_raises [OF this] obtain e' where "pages_loop (enumerate 0 pages) [] = Inl e'"
    by blast
  then show "extract_text_from_pdf (Inr pages) = None"
    by (simp add: extract_text_from_pdf_def)
next
  show "extract_text_from_pdf (Inr (map Inr texts)) =
       (if \<forall>page_text \<in> set texts. strip page_text = [] then None
        else Some (concat (map (\<lambda>(page_num, page_text).
                                  if strip page_text \<noteq> []
                                  then lit ''Page '' @ str (page_num + 1) @ lit '':'' @ [10] @
                                       page_text @ [10, 10]
                                  else [])
                             (enumerate 0 texts))))"
    unfolding extract_text_from_pdf_def
    using marked_pages_empty [of 0 texts]
    by (simp add: pages_loop_texts)
qed

text \<open>
  Three files for C6: a page that cannot be read, three pages of which the second is
  blank, and two blank pages.
\<close>

theorem pdf_pages_marked_witness:
  "extract_text_from_pdf (Inr [Inr (lit ''Hello world''), Inl (Exception ''PdfReadError'')]) = None
   \<and> extract_text_from_pdf (Inr [Inr (lit ''Hello world''), Inr [32, 10], Inr (lit ''Third'')]) =
       Some (lit ''Page 1:'' @ [10] @ lit ''Hello world'' @ [10, 10] @
             lit ''Page 3:'' @ [10] @ lit ''Third'' @ [10, 10])
   \<and> extract_text_from_pdf (Inr [Inr [32, 10], Inr []]) = None"
proof (intro conjI)
  have "Inl (Exception ''PdfReadError'') \<in> set [Inr (lit ''Hello world''), Inl (Exception ''PdfReadError'')]"
    by simp
  with pdf_pages_marked [where e = "Exception ''PdfReadError''"
      and pages = "[Inr (lit ''Hello world''), Inl (Exception ''PdfReadError'')]" and texts = "[]"]
  show "extract_text_from_pdf (Inr [Inr (lit ''Hello world''), Inl (Exception ''PdfReadError'')]) = None"
    by blast
next
  have s: "strip (lit ''Hello world'') \<noteq> []" "strip [32, 10] = []" "strip (lit ''Third'') \<noteq> []"
    by (simp_all add: strip_def isspace_def whitespace_def lit_def)
  have n: "str (Suc 0) = lit ''1''" "str (Suc (Suc (Suc 0))) = lit ''3''"
    by (simp_all add: str.simps lit_def)
  from pdf_pages_marked [where texts = "[lit ''Hello world'', [32, 10], lit ''Third'']"
      and e = "Exception ''PdfReadError''" and pages = "[]"] s
  show "extract_text_from_pdf (Inr [Inr (lit ''Hello world''), Inr [32, 10], Inr (lit ''Third'')]) =
       Some (lit ''Page 1:'' @ [10] @ lit ''Hello world'' @ [10, 10] @
             lit ''Page 3:'' @ [10] @ lit ''Third'' @ [10, 10])"
    by (simp add: n) (simp add: lit_def)
next
  have s: "strip [32, 10] = []" "strip [] = []"
    by (simp_all add: strip_def isspace_def whitespace_def)
  from pdf_pages_marked [where texts = "[[32, 10], []]"
      and e = "Exception ''PdfReadError''" and pages = "[]"] s
  show "extract_text_from_pdf (Inr [Inr [32, 10], Inr []]) = None"
    by simp
qed

subsection \<open>The encodings loop\<close>

lemma try_encodings_first:
  "try_encodings decode bytes encodings =
     (case find (\<lambda>encoding. decode encoding bytes \<noteq> None) encodings of
        None \<Rightarrow> None
      | Some encoding \<Rightarrow> map_option universal_newlines (decode encoding bytes))"
  by (induction encodings) (auto split: option.splits)

lemma try_encodings_None:
  "try_encodings decode bytes encodings = None \<longleftrightarrow>
     (\<forall>encoding \<in> set encodings. decode encoding bytes = None)"
  by (induction encodings) (auto split: option.splits)

text \<open>
  C7. The encodings are tried in the order utf-8, latin-1, cp1252, iso-8859-1. For a
  file whose bytes can be read, the result is the text decoded by the first encoding of
  that list whose codec does not raise \<open>UnicodeDecodeError\<close>, and it is the failure
  signal exactly when the codec of every encoding of the list raises it; an empty text
  is returned only when a codec decoded it. A file that cannot be opened or read raises
  the error of the operating system: that exception is not caught here.
\<close>

theorem first_decoding_returned:
  "encodings_to_try = [UTF_8, LATIN_1, CP1252, ISO_8859_1]
   \<and> extract_text_from_txt decode (Inr bytes) =
       Inr (case find (\<lambda>encoding. decode encoding bytes \<noteq> None) encodings_to_try of
              None \<Rightarrow> None
            | Some encoding \<Rightarrow> map_option universal_newlines (decode encoding bytes))
   \<and> (extract_text_from_txt decode (Inr bytes) = Inr None \<longleftrightarrow>
        (\<forall>encoding \<in> set encodings_to_try. decode encoding bytes = None))
   \<and> extract_text_from_txt decode (Inl e) = Inl e"
proof (intro conjI)
  show "encodings_to_try = [UTF_8, LATIN_1, CP1252, ISO_8859_1]"
    by (rule encodings_to_try_def)
  show "extract_text_from_txt decode (Inr bytes) =
       Inr (case find (\<lambda>encoding. decode encoding bytes \<noteq> None) encodings_to_try of
              None \<Rightarrow> None
            | Some encoding \<Rightarrow> map_option universal_newlines (decode encoding bytes))"
    unfolding extract_text_from_txt_def try_encodings_first by simp
  show "extract_text_from_txt decode (Inr bytes) = Inr None \<longleftrightarrow>
        (\<forall>encoding \<in> set encodings_to_try. decode encoding bytes = None)"
    unfolding extract_text_from_txt_def try_encodings_None [symmetric] by simp
  show "extract_text_from_txt decode (Inl e) = Inl e"
    by (simp add: extract_text_from_txt_def)
qed

text \<open>
  Two files for C7: no codec decodes the first, and only the third codec decodes the
  second (its \<open>\r\n\<close> arrives as \<open>\n\<close>).
\<close>

theorem first_decoding_returned_witness:
  "extract_text_from_txt (\<lambda>encoding bytes. None) (Inr [0xFF]) = Inr None
   \<and> extract_text_from_txt
        (\<lambda>encoding bytes. if encoding = CP1252 then Some (map unat bytes) else None)
        (Inr [0x41, 0x0D, 0x0A, 0x42]) = Inr (Some [65, 10, 66])"
proof
  have "\<forall>encoding \<in> set encodings_to_try. (\<lambda>encoding bytes. None :: pystr option) encoding [0xFF :: byte] = None"
    by simp
  with first_decoding_returned
    [where decode = "\<lambda>encoding bytes. None" and bytes = "[0xFF]" and e = "Exception ''OSError''"]
  show "extract_text_from_txt (\<lambda>encoding bytes. None) (Inr [0xFF]) = Inr None"
    by blast
next
  from first_decoding_returned
    [where decode = "\<lambda>encoding bytes. if encoding = CP1252 then Some (map unat bytes) else None"
       and bytes = "[0x41, 0x0D, 0x0A, 0x42]" and e = "Exception ''OSError''"]
  show "extract_text_from_txt
        (\<lambda>encoding bytes. if encoding = CP1252 then Some (map unat bytes) else None)
        (Inr [0x41, 0x0D, 0x0A, 0x42]) = Inr (Some [65, 10, 66])"
    by (simp add: encodings_to_try_def)
qed

text \<open>
  C10. With Python's codecs, whatever the decoders of UTF-8 and cp1252 do, the function
  returns a text for every file whose bytes can be read, and it never returns the
  failure signal: when UTF-8 does not decode the bytes, Latin-1 does, and the result is
  the Latin-1 reading of the bytes. The branch after the loop is never reached.
\<close>

theorem failure_branch_unreachable:
  "(\<exists>content. extract_text_from_txt (codecs utf_8_decoder cp1252_decoder) (Inr bytes) = Inr (Some content))
   \<and> extract_text_from_txt (codecs utf_8_decoder cp1252_decoder) txt_file \<noteq> Inr None
   \<and> (utf_8_decoder bytes = None \<longrightarrow>
        extract_text_from_txt (codecs utf_8_decoder cp1252_decoder) (Inr bytes) =
          Inr (Some (universal_newlines (decode_latin_1 bytes))))"
proof (intro conjI impI)
  have some: "\<exists>content. extract_text_from_txt (codecs utf_8_decoder cp1252_decoder) (Inr bs) = Inr (Some content)" for bs
    by (cases "utf_8_decoder bs")
       (simp_all add: extract_text_from_txt_def encodings_to_try_def codecs_def)
  then show "\<exists>content. extract_text_from_txt (codecs utf_8_decoder cp1252_decoder) (Inr bytes) = Inr (Some content)" .
  show "extract_text_from_txt (codecs utf_8_decoder cp1252_decoder) txt_file \<noteq> Inr None"
  proof (cases txt_file)
    case (Inl e)
    then show ?thesis by (simp add: extract_text_from_txt_def)
  next
    case (Inr bs)
    with some [of bs] show ?thesis by auto
  qed
next
  assume "utf_8_decoder bytes = None"
  then show "extract_text_from_txt (codecs utf_8_decoder cp1252_decoder) (Inr bytes) =
          Inr (Some (universal_newlines (decode_latin_1 bytes)))"
    by (simp add: extract_text_from_txt_def encodings_to_try_def codecs_def)
qed

text \<open>Bytes that are not UTF-8 are read as Latin-1.\<close>

theorem failure_branch_unreachable_witness:
  "extract_text_from_txt (codecs (\<lambda>bytes. None) (\<lambda>bytes. None)) (Inr [0xE9, 0x0D, 0xFF]) =
     Inr (Some [233, 10, 255])"
proof -
  have "(\<lambda>bytes. None :: pystr option) [0xE9, 0x0D, 0xFF :: byte] = None"
    by simp
  with failure_branch_unreachable
    [where utf_8_decoder = "\<lambda>bytes. None" and cp1252_decoder = "\<lambda>bytes. None" and bytes = "[0xE9, 0x0D, 0xFF]"
       and txt_file = "Inr [0xE9, 0x0D, 0xFF]"]
  show ?thesis by (simp add: decode_latin_1_def)
qed

subsection \<open>Traces and scores\<close>

lemma relevance_scores_append: "relevance_scores (xs @ ys) = relevance_scores xs @ relevance_scores ys"
  by (induction xs rule: relevance_scores.induct) simp_all

lemma query_calls_append: "query_calls (xs @ ys) = query_calls xs @ query_calls ys"
  by (induction xs rule: query_calls.induct) simp_all

lemma stored_lines_append: "stored_lines (xs @ ys) = stored_lines xs @ stored_lines ys"
  by (induction xs rule: stored_lines.induct) simp_all

lemma observe_store:
  "relevance_scores (map Store ls) = []" "query_calls (map Store ls) = []"
  "stored_lines (map Store ls) = ls"
  by (induction ls) simp_all

lemma observe_results:
  "relevance_scores (map (\<lambda>(i, doc, distance). Result (i + 1) (1 - distance) (preview doc)) xs) =
     map (\<lambda>(i, doc, distance). 1 - distance) xs"
  "query_calls (map (\<lambda>(i, doc, distance). Result (i + 1) (1 - distance) (preview doc)) xs) = []"
  "stored_lines (map (\<lambda>(i, doc, distance). Result (i + 1) (1 - distance) (preview doc)) xs) = []"
  by (induction xs) auto

lemma map_enumerate_snd: "map (\<lambda>(i, x). f x) (enumerate n xs) = map f xs"
  by (induction xs arbitrary: n) simp_all

lemma map_snd_zip_length: "map snd (zip xs ys) = take (length xs) ys"
  by (induction xs ys rule: list_induct2') simp_all

lemma scores_of_zip:
  "map (\<lambda>(i, doc, distance). 1 - distance) (enumerate n (zip docs ds)) =
     map (\<lambda>distance. 1 - distance) (take (length docs) (ds :: real list))"
proof -
  have "map (\<lambda>(i, doc, distance). 1 - distance) (enumerate n (zip docs ds)) =
        map (\<lambda>(doc, distance). 1 - distance) (zip docs ds)"
    by (rule map_enumerate_snd)
  also have "\<dots> = map (\<lambda>distance. 1 - distance) (map snd (zip docs ds))"
    by (simp add: case_prod_beta comp_def)
  also have "\<dots> = map (\<lambda>distance. 1 - distance) (take (length docs) ds)"
    by (simp only: map_snd_zip_length)
  finally show ?thesis .
qed

lemma scores_descend:
  "sorted (ds :: real list) \<Longrightarrow> sorted_wrt (\<ge>) (map (\<lambda>distance. 1 - distance) (take n ds))"
proof -
  assume "sorted ds"
  then have "sorted (take n ds)" by (rule sorted_wrt_take)
  then show ?thesis by (simp add: sorted_wrt_map)
qed

text \<open>
  C4. When the search returns at least one document, the results shown are the
  documents paired with the distances, in the order the search returned them and
  numbered from 1; each relevance score is \<open>1 - distance\<close>, and nothing is sorted again.
  So when the distances arrive in ascending order, the scores shown never increase.
  (The distances are real numbers here: the subtraction is exact.)
\<close>

theorem results_in_search_order:
  "docs \<noteq> [] \<Longrightarrow>
     display_results \<lparr>documents = docs # other_docs, distances = ds # other_ds\<rparr> =
       Inr (map (\<lambda>(i, doc, distance). Result (i + 1) (1 - distance) (preview doc))
              (enumerate 0 (zip docs ds)))
     \<and> relevance_scores
         (map (\<lambda>(i, doc, distance). Result (i + 1) (1 - distance) (preview doc))
            (enumerate 0 (zip docs ds))) =
       map (\<lambda>distance. 1 - distance) (take (length docs) ds)
     \<and> (sorted ds \<longrightarrow>
          sorted_wrt (\<ge>)
            (relevance_scores
               (map (\<lambda>(i, doc, distance). Result (i + 1) (1 - distance) (preview doc))
                  (enumerate 0 (zip docs ds)))))"
proof (intro conjI impI)
  assume "docs \<noteq> []"
  then show "display_results \<lparr>documents = docs # other_docs, distances = ds # other_ds\<rparr> =
       Inr (map (\<lambda>(i, doc, distance). Result (i + 1) (1 - distance) (preview doc))
              (enumerate 0 (zip docs ds)))"
    by (simp add: display_results_def)
next
  show scores: "relevance_scores
         (map (\<lambda>(i, doc, distance). Result (i + 1) (1 - distance) (preview doc))
            (enumerate 0 (zip docs ds))) =
       map (\<lambda>distance. 1 - distance) (take (length docs) ds)"
    unfolding observe_results scores_of_zip ..
  assume "sorted ds"
  then show "sorted_wrt (\<ge>)
            (relevance_scores
               (map (\<lambda>(i, doc, distance). Result (i + 1) (1 - distance) (preview doc))
                  (enumerate 0 (zip docs ds))))"
    unfolding scores by (rule scores_descend)
qed

text \<open>Two documents at distances 0.1 and 0.4 are shown with the scores 0.9 and 0.6.\<close>

theorem results_in_search_order_witness:
  "display_results \<lparr>documents = [[lit ''nearest text'', lit ''next text'']], distances = [[1 / 10, 2 / 5]]\<rparr> =
     Inr [Result 1 (9 / 10) (lit ''nearest text''), Result 2 (3 / 5) (lit ''next text'')]
   \<and> sorted_wrt (\<ge>) (relevance_scores [Result 1 (9 / 10) (lit ''nearest text''), Result 2 (3 / 5) (lit ''next text'')])"
proof -
  have d: "[lit ''nearest text'', lit ''next text''] \<noteq> []" by simp
  have s: "sorted [1 / 10, 2 / 5 :: real]" by simp
  have e: "map (\<lambda>(i, doc, distance). Result (i + 1) (1 - distance) (preview doc))
              (enumerate 0 (zip [lit ''nearest text'', lit ''next text''] [1 / 10, 2 / 5 :: real])) =
            [Result 1 (9 / 10) (lit ''nearest text''), Result 2 (3 / 5) (lit ''next text'')]"
    by (simp add: preview_def lit_def)
  from results_in_search_order [OF d, where ds = "[1 / 10, 2 / 5]" and other_docs = "[]" and other_ds = "[]"] s
  show ?thesis unfolding e by blast
qed

subsection \<open>The run\<close>

lemma observe_result_lines:
  "query_calls (map (\<lambda>(i, doc, distance). Result (f i) (g distance) (h doc)) xs) = []"
  "stored_lines (map (\<lambda>(i, doc, distance). Result (f i) (g distance) (h doc)) xs) = []"
  by (induction xs) auto

lemma display_results_shown:
  "display_results results = Inr shown \<Longrightarrow>
     query_calls shown = [] \<and> stored_lines shown = [] \<and>
     Extraction_failed \<notin> set shown \<and> No_documents_stored \<notin> set shown"
  by (auto simp: display_results_def observe_result_lines split: if_splits list.splits)

lemma run_query_observed:
  "query_calls (run_query sv c q k) = [(q, min 5 k)]"
  "stored_lines (run_query sv c q k) = []"
  "Extraction_failed \<notin> set (run_query sv c q k)"
  "No_documents_stored \<notin> set (run_query sv c q k)"
  by (auto simp: run_query_def split: sum.splits dest: display_results_shown)

lemma main_not_connected:
  "main sv (Client_failed e) choice source q = (None, [Error_occurred e])"
  "main sv (Collection_failed e) choice source q = (None, [Connected, Error_occurred e])"
  by (simp_all add: main_def)

lemma main_extraction_raised:
  "extract_content sv (file_type_of choice) source = Inl e \<Longrightarrow>
     main sv (Got_collection c) choice source q = (Some c, [Connected, Error_occurred e])"
  by (simp add: main_def)

lemma main_extraction_failed:
  "extract_content sv (file_type_of choice) source = Inr None \<or>
   extract_content sv (file_type_of choice) source = Inr (Some []) \<Longrightarrow>
     main sv (Got_collection c) choice source q = (Some c, [Connected, Extraction_failed])"
  by (auto simp: main_def)

lemma main_stored:
  "extract_content sv (file_type_of choice) source = Inr (Some content) \<Longrightarrow> content \<noteq> [] \<Longrightarrow>
   process_and_store_content (collection_add sv) c content (file_type_of choice) = (c', k, printed) \<Longrightarrow>
     main sv (Got_collection c) choice source q =
       (Some c', Connected # map Store printed @
          (if k = 0 then [No_documents_stored] else run_query sv c' q k @ [Session_completed]))"
  by (simp add: main_def)

lemma main_trace_observed:
  "(Extraction_failed \<in> set (snd (main sv connect choice source q)) \<longrightarrow>
      stored_lines (snd (main sv connect choice source q)) = [] \<and>
      query_calls (snd (main sv connect choice source q)) = [])
   \<and> (No_documents_stored \<in> set (snd (main sv connect choice source q)) \<longrightarrow>
        query_calls (snd (main sv connect choice source q)) = [])
   \<and> (query_calls (snd (main sv connect choice source q)) \<noteq> [] \<longrightarrow>
        (\<exists>c content. connect = Got_collection c \<and>
           extract_content sv (file_type_of choice) source = Inr (Some content) \<and> content \<noteq> [] \<and>
           0 < fst (snd (process_and_store_content (collection_add sv) c content (file_type_of choice)))))"
proof (cases connect)
  case (Client_failed e)
  then show ?thesis by (simp add: main_not_connected)
next
  case (Collection_failed e)
  then show ?thesis by (simp add: main_not_connected)
next
  case Inr: (Got_collection c)
  show ?thesis
  proof (cases "extract_content sv (file_type_of choice) source")
    case (Inl e)
    then show ?thesis unfolding Inr by (simp add: main_extraction_raised)
  next
    case extracted: (Inr found)
    show ?thesis
    proof (cases "found = None \<or> found = Some []")
      case True
      with extracted have "extract_content sv (file_type_of choice) source = Inr None \<or>
         extract_content sv (file_type_of choice) source = Inr (Some [])" by auto
      from main_extraction_failed [OF this] show ?thesis unfolding Inr by simp
    next
      case False
      then obtain content where found: "found = Some content" and content: "content \<noteq> []"
        by (cases found) auto
      obtain c' k printed where
        stored: "process_and_store_content (collection_add sv) c content (file_type_of choice) = (c', k, printed)"
        by (metis prod_cases3)
      note m = main_stored [OF extracted [unfolded found] content stored]
      show ?thesis
      proof (cases "k = 0")
        case True
        then show ?thesis unfolding Inr m
          by (auto simp: query_calls_append observe_store)
      next
        case False
        then show ?thesis unfolding Inr m
          using extracted found content stored
          by (auto simp: query_calls_append stored_lines_append observe_store run_query_observed)
      qed
    qed
  qed
qed

text \<open>
  C9. When the extractor returns the failure signal or an empty text, the run ends with
  the report that extraction failed: the collection is as it was and nothing was
  stored or queried. When no record was inserted, the run ends with the report that no
  documents were stored, after the lines of the store operation and without a query.
  In every run, a report of failed extraction excludes any store line and any query, a
  report of no documents stored excludes any query, and a query is made only after a
  connection, an extraction of a text that is not empty, and at least one insertion.
\<close>

theorem later_stages_not_run:
  "((extract_content sv (file_type_of choice) source = Inr None \<or>
     extract_content sv (file_type_of choice) source = Inr (Some [])) \<longrightarrow>
      main sv (Got_collection c) choice source user_query = (Some c, [Connected, Extraction_failed]))
   \<and> (extract_content sv (file_type_of choice) source = Inr (Some content) \<and> content \<noteq> [] \<and>
       fst (snd (process_and_store_content (collection_add sv) c content (file_type_of choice))) = 0 \<longrightarrow>
        main sv (Got_collection c) choice source user_query =
          (Some (fst (process_and_store_content (collection_add sv) c content (file_type_of choice))),
           Connected #
           map Store (snd (snd (process_and_store_content (collection_add sv) c content (file_type_of choice)))) @
           [No_documents_stored]))
   \<and> (Extraction_failed \<in> set (snd (main sv connect choice source user_query)) \<longrightarrow>
        stored_lines (snd (main sv connect choice source user_query)) = [] \<and>
        query_calls (snd (main sv connect choice source user_query)) = [])
   \<and> (No_documents_stored \<in> set (snd (main sv connect choice source user_query)) \<longrightarrow>
        query_calls (snd (main sv connect choice source user_query)) = [])
   \<and> (query_calls (snd (main sv connect choice source user_query)) \<noteq> [] \<longrightarrow>
        (\<exists>c content. connect = Got_collection c \<and>
           extract_content sv (file_type_of choice) source = Inr (Some content) \<and> content \<noteq> [] \<and>
           0 < fst (snd (process_and_store_content (collection_add sv) c content (file_type_of choice)))))"
proof (intro conjI)
  show "(extract_content sv (file_type_of choice) source = Inr None \<or>
     extract_content sv (file_type_of choice) source = Inr (Some [])) \<longrightarrow>
      main sv (Got_collection c) choice source user_query = (Some c, [Connected, Extraction_failed])"
    by (rule impI) (rule main_extraction_failed)
  show "extract_content sv (file_type_of choice) source = Inr (Some content) \<and> content \<noteq> [] \<and>
       fst (snd (process_and_store_content (collection_add sv) c content (file_type_of choice))) = 0 \<longrightarrow>
        main sv (Got_collection c) choice source user_query =
          (Some (fst (process_and_store_content (collection_add sv) c content (file_type_of choice))),
           Connected #
           map Store (snd (snd (process_and_store_content (collection_add sv) c content (file_type_of choice)))) @
           [No_documents_stored])"
  proof (intro impI, elim conjE)
    assume a: "extract_content sv (file_type_of choice) source = Inr (Some content)" "content \<noteq> []"
      and z: "fst (snd (process_and_store_content (collection_add sv) c content (file_type_of choice))) = 0"
    obtain c' k printed where
      stored: "process_and_store_content (collection_add sv) c content (file_type_of choice) = (c', k, printed)"
      by (metis prod_cases3)
    with z have "k = 0" by simp
    with main_stored [OF a stored] show "main sv (Got_collection c) choice source user_query =
          (Some (fst (process_and_store_content (collection_add sv) c content (file_type_of choice))),
           Connected #
           map Store (snd (snd (process_and_store_content (collection_add sv) c content (file_type_of choice)))) @
           [No_documents_stored])"
      by (simp add: stored)
  qed
qed (use main_trace_observed [where sv = sv and connect = connect and choice = choice
      and source = source and q = user_query] in blast)+

subsection \<open>Runs evaluated\<close>

lemmas run_defs =
  main_def file_type_of_def extract_content_def extract_text_from_pdf_def
  extract_text_from_txt_def encodings_to_try_def codecs_def decode_latin_1_def
  process_and_store_content_def sections_def split_def strip_def isspace_def whitespace_def
  lit_def doc_id_def lower_def str.simps strict_add_def run_query_def similarity_search_def
  nearest_def display_results_def preview_def

lemma three_pages_run:
  "main \<lparr>collection_add = strict_add, collection_query = similarity_search (\<lambda>q d. 0),
          codec_decode = codecs (\<lambda>bytes. None) (\<lambda>bytes. None)\<rparr>
     (Got_collection []) (lit ''1'')
     \<lparr>as_pdf = Inr [Inr (lit ''Text of the first page.''), Inr (lit ''Text of the second page.''),
                    Inr (lit ''Text of the third page.'')],
      as_txt = Inl (Exception ''OSError'')\<rparr>
     (lit ''what'') =
   (Some [(lit ''pdf_doc_1'', lit ''1:'' @ [10] @ lit ''Text of the first page.''),
          (lit ''pdf_doc_2'', lit ''2:'' @ [10] @ lit ''Text of the second page.''),
          (lit ''pdf_doc_3'', lit ''3:'' @ [10] @ lit ''Text of the third page.'')],
    [Connected, Store (Added (lit ''pdf_doc_1'')), Store (Added (lit ''pdf_doc_2'')),
     Store (Added (lit ''pdf_doc_3'')), Query_call (lit ''what'') 3,
     Result 1 1 (lit ''1:'' @ [10] @ lit ''Text of the first page.''),
     Result 2 1 (lit ''2:'' @ [10] @ lit ''Text of the second page.''),
     Result 3 1 (lit ''3:'' @ [10] @ lit ''Text of the third page.''),
     Session_completed])"
  by (simp add: run_defs)

text \<open>
  Three runs for C9: a PDF with one blank page, a text file that holds only the word
  \<open>short\<close>, and a PDF of three pages, which is queried.
\<close>

theorem later_stages_not_run_witness:
  "main \<lparr>collection_add = strict_add, collection_query = similarity_search (\<lambda>q d. 0),
          codec_decode = codecs (\<lambda>bytes. None) (\<lambda>bytes. None)\<rparr>
     (Got_collection [(lit ''txt_doc_1'', lit ''An older text.'')]) (lit ''1'')
     \<lparr>as_pdf = Inr [Inr [32, 10]], as_txt = Inl (Exception ''OSError'')\<rparr> (lit ''what'') =
   (Some [(lit ''txt_doc_1'', lit ''An older text.'')], [Connected, Extraction_failed])
   \<and> main \<lparr>collection_add = strict_add, collection_query = similarity_search (\<lambda>q d. 0),
          codec_decode = codecs (\<lambda>bytes. None) (\<lambda>bytes. None)\<rparr>
     (Got_collection [(lit ''txt_doc_1'', lit ''An older text.'')]) (lit ''2'')
     \<lparr>as_pdf = Inl (Exception ''PdfReadError''), as_txt = Inr [0x73, 0x68, 0x6F, 0x72, 0x74]\<rparr>
     (lit ''what'') =
   (Some [(lit ''txt_doc_1'', lit ''An older text.'')], [Connected, No_documents_stored])
   \<and> (\<exists>content. extract_content
         \<lparr>collection_add = strict_add, collection_query = similarity_search (\<lambda>q d. 0),
          codec_decode = codecs (\<lambda>bytes. None) (\<lambda>bytes. None)\<rparr>
         (file_type_of (lit ''1''))
         \<lparr>as_pdf = Inr [Inr (lit ''Text of the first page.''), Inr (lit ''Text of the second page.''),
                        Inr (lit ''Text of the third page.'')],
          as_txt = Inl (Exception ''OSError'')\<rparr> = Inr (Some content) \<and> content \<noteq> [])"
proof (intro conjI)
  let ?sv = "\<lparr>collection_add = strict_add, collection_query = similarity_search (\<lambda>q d. 0),
          codec_decode = codecs (\<lambda>bytes. None) (\<lambda>bytes. None)\<rparr>"
  let ?c = "[(lit ''txt_doc_1'', lit ''An older text.'')]"
  let ?blank = "\<lparr>as_pdf = Inr [Inr [32, 10]], as_txt = Inl (Exception ''OSError'')\<rparr>"
  let ?short = "\<lparr>as_pdf = Inl (Exception ''PdfReadError''), as_txt = Inr [0x73, 0x68, 0x6F, 0x72, 0x74]\<rparr>"
  let ?three = "\<lparr>as_pdf = Inr [Inr (lit ''Text of the first page.''), Inr (lit ''Text of the second page.''),
                        Inr (lit ''Text of the third page.'')],
          as_txt = Inl (Exception ''OSError'')\<rparr>"
  have x1: "extract_content ?sv (file_type_of (lit ''1'')) ?blank = Inr None"
    by (simp add: run_defs)
  from later_stages_not_run [where sv = ?sv and choice = "lit ''1''" and source = ?blank
      and c = ?c and user_query = "lit ''what''" and connect = "Got_collection ?c" and content = "[]"] x1
  show "main ?sv (Got_collection ?c) (lit ''1'') ?blank (lit ''what'') = (Some ?c, [Connected, Extraction_failed])"
    by blast
  have x2: "extract_content ?sv (file_type_of (lit ''2'')) ?short = Inr (Some (lit ''short''))"
    by (simp add: run_defs)
  have n2: "lit ''short'' \<noteq> []"
    by (simp add: lit_def)
  have p2: "process_and_store_content (collection_add ?sv) ?c (lit ''short'') (file_type_of (lit ''2'')) = (?c, 0, [])"
    by (simp add: run_defs)
  from later_stages_not_run [where sv = ?sv and choice = "lit ''2''" and source = ?short
      and c = ?c and user_query = "lit ''what''" and connect = "Got_collection ?c" and content = "lit ''short''"]
    x2 n2 p2
  show "main ?sv (Got_collection ?c) (lit ''2'') ?short (lit ''what'') = (Some ?c, [Connected, No_documents_stored])"
    by simp
  have "query_calls (snd (main ?sv (Got_collection []) (lit ''1'') ?three (lit ''what''))) \<noteq> []"
    unfolding three_pages_run by simp
  with later_stages_not_run [where sv = ?sv and choice = "lit ''1''" and source = ?three
      and c = "[]" and user_query = "lit ''what''" and connect = "Got_collection []" and content = "[]"]
  show "\<exists>content. extract_content ?sv (file_type_of (lit ''1'')) ?three = Inr (Some content) \<and> content \<noteq> []"
    by blast
qed

subsection \<open>The query of a run\<close>

lemma nearest_length: "length (nearest distance_of c q n) = min n (length c)"
  by (simp add: nearest_def)

lemma run_query_search:
  assumes "0 < k" "k \<le> length c"
  shows "run_query \<lparr>collection_add = a, collection_query = similarity_search distance_of,
                    codec_decode = d\<rparr> c q k =
     Query_call q (min 5 k) #
     map (\<lambda>(i, doc, distance). Result (i + 1) (1 - distance) (preview doc))
       (enumerate 0 (zip (nearest distance_of c q (min 5 k))
                         (map (distance_of q) (nearest distance_of c q (min 5 k)))))"
proof -
  from assms have "length (nearest distance_of c q (min 5 k)) = min 5 k"
    by (simp add: nearest_length)
  with assms have "nearest distance_of c q (min 5 k) \<noteq> []"
    by auto
  then show ?thesis
    by (simp add: run_query_def similarity_search_def display_results_def)
qed

lemma strict_store_count:
  "process_and_store_content strict_add c content file_type = (c', k, printed) \<Longrightarrow>
     length c' = length c + k \<and> k = length (filter is_added printed)"
proof -
  assume r: "process_and_store_content strict_add c content file_type = (c', k, printed)"
  have "k = length (filter is_added printed)"
    using store_loop_count [of strict_add file_type "enumerate 0 (sections content file_type)" c] r
    by (simp add: process_and_store_content_def)
  moreover have "length c' = length c + k"
    using r unfolding strict_store by auto
  ultimately show ?thesis by simp
qed

text \<open>
  C3, as the code has it. The number of results is not a parameter: a run asks for
  \<open>min(5, docs_count)\<close> results, where \<open>docs_count\<close> is the number of records the run
  itself inserted. With a collection that rejects duplicates and a search that returns
  the nearest records, that number is at least 1 and at most the number of records in
  the collection, so the query never asks for more than is stored; the search returns
  exactly that many results and the run shows them all, without a query error.
\<close>

theorem query_asks_for_stored_this_run:
  "main \<lparr>collection_add = strict_add, collection_query = similarity_search distance_of,
         codec_decode = decoder\<rparr> (Got_collection c) choice source user_query = (Some c', trace) \<Longrightarrow>
   (q, n) \<in> set (query_calls trace) \<Longrightarrow>
     q = user_query \<and> n = min 5 (length (filter is_added (stored_lines trace))) \<and>
     0 < n \<and> n \<le> min 5 (length c') \<and> length (relevance_scores trace) = n \<and>
     (\<forall>e. Query_error e \<notin> set trace)"
proof -
  let ?sv = "\<lparr>collection_add = strict_add, collection_query = similarity_search distance_of,
         codec_decode = decoder\<rparr>"
  assume run: "main ?sv (Got_collection c) choice source user_query = (Some c', trace)"
    and call: "(q, n) \<in> set (query_calls trace)"
  from call have "query_calls (snd (main ?sv (Got_collection c) choice source user_query)) \<noteq> []"
    unfolding run by auto
  with main_trace_observed [where sv = ?sv and connect = "Got_collection c" and choice = choice
      and source = source and q = user_query]
  obtain content where
    extracted: "extract_content ?sv (file_type_of choice) source = Inr (Some content)"
    and content: "content \<noteq> []"
    and some: "0 < fst (snd (process_and_store_content (collection_add ?sv) c content (file_type_of choice)))"
    by auto
  obtain c1 k printed where
    stored: "process_and_store_content (collection_add ?sv) c content (file_type_of choice) = (c1, k, printed)"
    by (metis prod_cases3)
  with some have k: "0 < k" by simp
  from stored have stored': "process_and_store_content strict_add c content (file_type_of choice) = (c1, k, printed)"
    by simp
  from strict_store_count [OF stored']
  have len: "length c1 = length c + k" and added: "k = length (filter is_added printed)"
    by simp_all
  from len have le: "k \<le> length c1" by simp
  from main_stored [OF extracted content stored, of user_query] k run
  have c': "c' = c1"
    and trace: "trace = Connected # map Store printed @ run_query ?sv c1 user_query k @ [Session_completed]"
    by simp_all
  note rq = run_query_search [OF k le, of strict_add distance_of decoder user_query]
  have n5: "length (nearest distance_of c1 user_query (min 5 k)) = min 5 k"
    using le by (simp add: nearest_length)
  have calls: "query_calls trace = [(user_query, min 5 k)]"
    unfolding trace by (simp add: query_calls_append observe_store run_query_observed)
  have lines: "stored_lines trace = printed"
    unfolding trace by (simp add: stored_lines_append observe_store run_query_observed)
  have scores: "length (relevance_scores trace) = min 5 k"
    unfolding trace rq
    by (simp add: relevance_scores_append observe_store observe_results del: One_nat_def)
       (simp add: n5)
  have noerr: "Query_error e \<notin> set trace" for e
    unfolding trace rq by auto
  from call calls have "q = user_query" "n = min 5 k" by simp_all
  with k le added lines scores noerr c' show ?thesis by simp
qed

text \<open>
  A run that stores the three pages of a PDF in an empty collection asks for three
  results and shows three.
\<close>

theorem query_asks_for_stored_this_run_witness:
  "length (relevance_scores
     (snd (main \<lparr>collection_add = strict_add, collection_query = similarity_search (\<lambda>q d. 0),
          codec_decode = codecs (\<lambda>bytes. None) (\<lambda>bytes. None)\<rparr>
     (Got_collection []) (lit ''1'')
     \<lparr>as_pdf = Inr [Inr (lit ''Text of the first page.''), Inr (lit ''Text of the second page.''),
                    Inr (lit ''Text of the third page.'')],
      as_txt = Inl (Exception ''OSError'')\<rparr>
     (lit ''what'')))) = 3
   \<and> query_calls
     (snd (main \<lparr>collection_add = strict_add, collection_query = similarity_search (\<lambda>q d. 0),
          codec_decode = codecs (\<lambda>bytes. None) (\<lambda>bytes. None)\<rparr>
     (Got_collection []) (lit ''1'')
     \<lparr>as_pdf = Inr [Inr (lit ''Text of the first page.''), Inr (lit ''Text of the second page.''),
                    Inr (lit ''Text of the third page.'')],
      as_txt = Inl (Exception ''OSError'')\<rparr>
     (lit ''what''))) = [(lit ''what'', 3)]"
proof -
  have calls: "(lit ''what'', 3) \<in> set (query_calls
    [Connected, Store (Added (lit ''pdf_doc_1'')), Store (Added (lit ''pdf_doc_2'')),
     Store (Added (lit ''pdf_doc_3'')), Query_call (lit ''what'') 3,
     Result 1 1 (lit ''1:'' @ [10] @ lit ''Text of the first page.''),
     Result 2 1 (lit ''2:'' @ [10] @ lit ''Text of the second page.''),
     Result 3 1 (lit ''3:'' @ [10] @ lit ''Text of the third page.''),
     Session_completed])"
    by simp
  from query_asks_for_stored_this_run [OF three_pages_run calls]
  show ?thesis unfolding three_pages_run by simp
qed

text \<open>
  The claim of C3 that a query against a collection of 3 records returns exactly 3
  results does not hold: when two of the three records were stored by an earlier run,
  the run has inserted one record, asks for one result and shows one.
\<close>

theorem three_records_one_result:
  "main \<lparr>collection_add = strict_add, collection_query = similarity_search (\<lambda>q d. 0),
          codec_decode = codecs (\<lambda>bytes. None) (\<lambda>bytes. None)\<rparr>
     (Got_collection [(lit ''txt_doc_1'', lit ''An older first text.''),
           (lit ''txt_doc_2'', lit ''An older second text.'')]) (lit ''1'')
     \<lparr>as_pdf = Inr [Inr (lit ''Text of the only page.'')], as_txt = Inl (Exception ''OSError'')\<rparr>
     (lit ''what'') =
   (Some [(lit ''txt_doc_1'', lit ''An older first text.''),
          (lit ''txt_doc_2'', lit ''An older second text.''),
          (lit ''pdf_doc_1'', lit ''1:'' @ [10] @ lit ''Text of the only page.'')],
    [Connected, Store (Added (lit ''pdf_doc_1'')), Query_call (lit ''what'') 1,
     Result 1 1 (lit ''An older first text.''), Session_completed])"
  by (simp add: run_defs)

end
